theory Spec2Isabelle
  imports Complex_Main "HOL-Library.Word"
begin

section \<open>Data model (linalg.h)\<close>

text \<open>
  The native extension stores vectors and matrices of C \<^verbatim>\<open>double\<close>s. The embedding
  idealises a \<^verbatim>\<open>double\<close> as a \<^typ>\<open>real\<close>: rounding, infinities and NaN are not
  modelled, so every statement below is about the control flow, the shapes and the exact
  arithmetic of the code. The platform is a 64-bit one with 32-bit \<^verbatim>\<open>int\<close>: a
  \<^verbatim>\<open>size_t\<close> is a \<^typ>\<open>nat\<close> (sizes are those of objects in memory and do not wrap),
  the \<^verbatim>\<open>int max_rank\<close> of the incremental update is a 32-bit word read with
  \<^const>\<open>sint\<close>, and its conversion to \<^verbatim>\<open>size_t\<close> is written out modulo \<open>2 ^ 64\<close>.

  A buffer \<^verbatim>\<open>double *data\<close> is a list; a loop that stores into a freshly allocated
  buffer is a \<^const>\<open>fold\<close> of list updates over the index range, in the order of the
  source.
\<close>

definition CLASSIFIER_EPSILON :: real where
  "CLASSIFIER_EPSILON = 1 / 10 ^ 10"

record CVector =
  vsize :: nat
  vdata :: "real list"
  is_col :: int

record CMatrix =
  rows :: nat
  cols :: nat
  mdata :: "real list"

text \<open>Row-major element access, the macro \<^verbatim>\<open>MAT_AT(m, i, j)\<close>.\<close>

definition MAT_AT :: "CMatrix \<Rightarrow> nat \<Rightarrow> nat \<Rightarrow> real" where
  "MAT_AT m i j = mdata m ! (i * cols m + j)"

text \<open>
  The invariants of section 3 of the specification: the buffer holds exactly
  \<open>size\<close> (respectively \<open>rows * cols\<close>) numbers.
\<close>

definition wf_vector :: "CVector \<Rightarrow> bool" where
  "wf_vector v = (length (vdata v) = vsize v)"

definition wf_matrix :: "CMatrix \<Rightarrow> bool" where
  "wf_matrix m = (length (mdata m) = rows m * cols m)"

text \<open>
  \<^verbatim>\<open>rb_raise(rb_eArgError, ...)\<close> and \<^verbatim>\<open>rb_raise(rb_eTypeError, ...)\<close> leave the
  function at once; a function that can raise returns a sum with the error on the left.
\<close>

datatype rb_error = ArgError | TypeError

section \<open>Vectors (vector.c)\<close>

definition cvector_alloc :: "nat \<Rightarrow> CVector" where
  "cvector_alloc n = \<lparr>vsize = n, vdata = replicate n 0, is_col = 0\<rparr>"

definition cvector_magnitude :: "CVector \<Rightarrow> real" where
  "cvector_magnitude v =
     sqrt (fold (\<lambda>i sum. sum + vdata v ! i * vdata v ! i) [0..<vsize v] 0)"

definition cvector_normalize :: "CVector \<Rightarrow> CVector" where
  "cvector_normalize v =
     (let result = (cvector_alloc (vsize v))\<lparr>is_col := is_col v\<rparr>;
          mag = cvector_magnitude v
      in if mag \<le> CLASSIFIER_EPSILON then result
         else result\<lparr>vdata :=
                fold (\<lambda>i d. d[i := vdata v ! i / mag]) [0..<vsize v] (vdata result)\<rparr>)"

section \<open>Matrices (matrix.c)\<close>

definition cmatrix_alloc :: "nat \<Rightarrow> nat \<Rightarrow> CMatrix" where
  "cmatrix_alloc r c = \<lparr>rows = r, cols = c, mdata = replicate (r * c) 0\<rparr>"

definition cmatrix_transpose :: "CMatrix \<Rightarrow> CMatrix" where
  "cmatrix_transpose m =
     (let result = cmatrix_alloc (cols m) (rows m)
      in result\<lparr>mdata :=
           fold (\<lambda>i d. fold (\<lambda>j d. d[j * rows m + i := MAT_AT m i j]) [0..<cols m] d)
             [0..<rows m] (mdata result)\<rparr>)"

definition cmatrix_multiply :: "CMatrix \<Rightarrow> CMatrix \<Rightarrow> rb_error + CMatrix" where
  "cmatrix_multiply a b =
     (if cols a \<noteq> rows b then Inl ArgError
      else let result = cmatrix_alloc (rows a) (cols b)
           in Inr (result\<lparr>mdata :=
                fold (\<lambda>i d. fold (\<lambda>j d.
                    d[i * cols b + j :=
                        fold (\<lambda>k sum. sum + MAT_AT a i k * MAT_AT b k j) [0..<cols a] 0])
                  [0..<cols b] d)
                [0..<rows a] (mdata result)\<rparr>))"

definition cmatrix_multiply_vector :: "CMatrix \<Rightarrow> CVector \<Rightarrow> rb_error + CVector" where
  "cmatrix_multiply_vector m v =
     (if cols m \<noteq> vsize v then Inl ArgError
      else let result = cvector_alloc (rows m)
           in Inr (result\<lparr>vdata :=
                fold (\<lambda>i d.
                    d[i := fold (\<lambda>j sum. sum + MAT_AT m i j * vdata v ! j) [0..<cols m] 0])
                  [0..<rows m] (vdata result)\<rparr>))"

section \<open>Batch projection (incremental\_svd.c)\<close>

text \<open>
  \<^verbatim>\<open>cbatch_project\<close> walks the input array from the front and raises at the first
  vector whose size is not \<open>u->rows\<close>; the size test comes before any read of the vector.
\<close>

fun cbatch_project :: "CMatrix \<Rightarrow> CVector list \<Rightarrow> rb_error + CVector list" where
  "cbatch_project u [] = Inr []"
| "cbatch_project u (raw # raw_vectors) =
     (let m = rows u; k = cols u
      in if vsize raw \<noteq> m then Inl ArgError
         else let lsi = cvector_alloc k;
                  lsi = lsi\<lparr>vdata :=
                    fold (\<lambda>j d.
                        d[j := fold (\<lambda>i sum. sum + MAT_AT u i j * vdata raw ! i) [0..<m] 0])
                      [0..<k] (vdata lsi)\<rparr>
              in case cbatch_project u raw_vectors of
                   Inl e \<Rightarrow> Inl e
                 | Inr out \<Rightarrow> Inr (lsi # out))"

text \<open>
  The Ruby wrapper \<^verbatim>\<open>rb_cmatrix_batch_project\<close> receives an arbitrary Ruby value.
  \<^verbatim>\<open>Check_Type\<close> raises a \<^verbatim>\<open>TypeError\<close> unless it is an array, an empty array is
  answered before anything else happens, and every element must be a Vector.
\<close>

datatype rb_value = RVector CVector | RArray "rb_value list" | ROther

fun unwrap_vectors :: "rb_value list \<Rightarrow> rb_error + CVector list" where
  "unwrap_vectors [] = Inr []"
| "unwrap_vectors (RVector v # rest) =
     (case unwrap_vectors rest of Inl e \<Rightarrow> Inl e | Inr vs \<Rightarrow> Inr (v # vs))"
| "unwrap_vectors (_ # rest) = Inl TypeError"

fun rb_cmatrix_batch_project :: "CMatrix \<Rightarrow> rb_value \<Rightarrow> rb_error + CVector list" where
  "rb_cmatrix_batch_project u (RArray rb_vectors) =
     (if length rb_vectors = 0 then Inr []
      else case unwrap_vectors rb_vectors of
             Inl e \<Rightarrow> Inl e
           | Inr raw_vectors \<Rightarrow> cbatch_project u raw_vectors)"
| "rb_cmatrix_batch_project u _ = Inl TypeError"

section \<open>Incremental update helpers (incremental\_svd.c)\<close>

text \<open>
  \<^verbatim>\<open>memcpy(dst + doff, src + soff, n * sizeof(double))\<close>: \<open>n\<close> numbers are stored
  into the destination buffer, one index after the other.
\<close>

definition memcpy :: "real list \<Rightarrow> nat \<Rightarrow> real list \<Rightarrow> nat \<Rightarrow> nat \<Rightarrow> real list" where
  "memcpy dst doff src soff n = fold (\<lambda>t d. d[doff + t := src ! (soff + t)]) [0..<n] dst"

definition cmatrix_extend_column :: "CMatrix \<Rightarrow> CVector \<Rightarrow> rb_error + CMatrix" where
  "cmatrix_extend_column m col =
     (if rows m \<noteq> vsize col then Inl ArgError
      else let result = cmatrix_alloc (rows m) (cols m + 1)
           in Inr (result\<lparr>mdata :=
                fold (\<lambda>i d.
                    (memcpy d (i * (cols m + 1)) (mdata m) (i * cols m) (cols m))
                      [i * (cols m + 1) + cols m := vdata col ! i])
                  [0..<rows m] (mdata result)\<rparr>))"

definition cvector_subtract :: "CVector \<Rightarrow> CVector \<Rightarrow> rb_error + CVector" where
  "cvector_subtract a b =
     (if vsize a \<noteq> vsize b then Inl ArgError
      else let result = cvector_alloc (vsize a)
           in Inr (result\<lparr>vdata :=
                fold (\<lambda>i d. d[i := vdata a ! i - vdata b ! i]) [0..<vsize a]
                  (vdata result)\<rparr>))"

text \<open>
  \<^verbatim>\<open>incremental_update\<close> reads \<^verbatim>\<open>c->data[i]\<close> for \<open>i < u->rows\<close> and
  \<^verbatim>\<open>build_k_matrix_with_growth\<close> reads \<^verbatim>\<open>m_vec->data[i]\<close> for \<open>i < s->size\<close>
  before any size has been compared. When the buffer is shorter, C reads whatever lies
  behind it; the model takes that content as a parameter \<open>oob\<close>, so that nothing
  proved below depends on it.
\<close>

definition unchecked_read :: "(nat \<Rightarrow> real) \<Rightarrow> CVector \<Rightarrow> nat \<Rightarrow> real" where
  "unchecked_read oob v i = (if i < vsize v then vdata v ! i else oob i)"

definition build_k_matrix_with_growth ::
    "(nat \<Rightarrow> real) \<Rightarrow> CVector \<Rightarrow> CVector \<Rightarrow> real \<Rightarrow> CMatrix" where
  "build_k_matrix_with_growth oob s m_vec p_norm =
     (let k = vsize s;
          result = cmatrix_alloc (k + 1) (k + 1);
          d = fold (\<lambda>i d. d[i * (k + 1) + i := vdata s ! i,
                            i * (k + 1) + k := unchecked_read oob m_vec i])
                [0..<k] (mdata result)
      in result\<lparr>mdata := d[k * (k + 1) + k := p_norm]\<rparr>)"

section \<open>Jacobi SVD (svd.c)\<close>

definition SVD_MAX_SWEEPS :: nat where
  "SVD_MAX_SWEEPS = 20"

definition SVD_CONVERGENCE_THRESHOLD :: real where
  "SVD_CONVERGENCE_THRESHOLD = 1 / 1000"

definition cmatrix_identity :: "nat \<Rightarrow> CMatrix" where
  "cmatrix_identity n =
     (let m = cmatrix_alloc n n
      in m\<lparr>mdata := fold (\<lambda>i d. d[i * n + i := 1]) [0..<n] (mdata m)\<rparr>)"

definition cmatrix_clone :: "CMatrix \<Rightarrow> CMatrix" where
  "cmatrix_clone m =
     (let result = cmatrix_alloc (rows m) (cols m)
      in result\<lparr>mdata := memcpy (mdata result) 0 (mdata m) 0 (rows m * cols m)\<rparr>)"

text \<open>
  \<^verbatim>\<open>apply_jacobi_rotation\<close> updates \<open>q\<close> and \<open>v\<close> in place; each loop reads the
  buffer as the earlier iterations left it. The function returns the two updated
  matrices.
\<close>

definition apply_jacobi_rotation ::
    "CMatrix \<Rightarrow> CMatrix \<Rightarrow> nat \<Rightarrow> nat \<Rightarrow> real \<Rightarrow> real \<Rightarrow> CMatrix \<times> CMatrix" where
  "apply_jacobi_rotation q v p r cosine sine =
     (let n = rows q;
          q1 = fold (\<lambda>i d.
                 let qip = d ! (i * cols q + p); qir = d ! (i * cols q + r)
                 in d[i * cols q + p := cosine * qip - sine * qir,
                      i * cols q + r := sine * qip + cosine * qir])
               [0..<n] (mdata q);
          q2 = fold (\<lambda>j d.
                 let qpj = d ! (p * cols q + j); qrj = d ! (r * cols q + j)
                 in d[p * cols q + j := cosine * qpj - sine * qrj,
                      r * cols q + j := sine * qpj + cosine * qrj])
               [0..<n] q1;
          v1 = fold (\<lambda>i d.
                 let vip = d ! (i * cols v + p); vir = d ! (i * cols v + r)
                 in d[i * cols v + p := cosine * vip - sine * vir,
                      i * cols v + r := sine * vip + cosine * vir])
               [0..<rows v] (mdata v)
      in (q\<lparr>mdata := q2\<rparr>, v\<lparr>mdata := v1\<rparr>))"

text \<open>
  The rotation angle of one off-diagonal pair, from \<open>numerator = 2 * Q[p][r]\<close> and
  \<open>denominator = Q[p][p] - Q[r][r]\<close>; \<^verbatim>\<open>M_PI\<close> is \<^term>\<open>pi\<close>, \<^verbatim>\<open>atan\<close> is
  \<^const>\<open>arctan\<close>.
\<close>

definition rotation_angle :: "real \<Rightarrow> real \<Rightarrow> real" where
  "rotation_angle numerator denominator =
     (if \<bar>denominator\<bar> < CLASSIFIER_EPSILON
      then (if numerator \<ge> 0 then pi / 4 else - pi / 4)
      else arctan (numerator / denominator) / 2)"

text \<open>The body of the two inner loops of a sweep, for the pair \<open>(p, r)\<close>.\<close>

definition rotate_pair :: "nat \<Rightarrow> nat \<Rightarrow> CMatrix \<times> CMatrix \<Rightarrow> CMatrix \<times> CMatrix" where
  "rotate_pair p r qv =
     (let q = fst qv; v = snd qv;
          qpr = MAT_AT q p r; qpp = MAT_AT q p p; qrr = MAT_AT q r r;
          numerator = 2 * qpr;
          denominator = qpp - qrr;
          angle = rotation_angle numerator denominator;
          cosine = cos angle;
          sine = sin angle
      in apply_jacobi_rotation q v p r cosine sine)"

text \<open>
  One sweep: every pair \<open>p < r < size\<close>, row by row. The bound \<open>size - 1\<close> of the
  outer loop is a \<^verbatim>\<open>size_t\<close>; for \<open>size = 0\<close> it wraps around in C, but then the
  inner loop has no iteration for any \<open>p\<close>, so no rotation is applied, as here.
\<close>

definition sweep_rotations :: "nat \<Rightarrow> CMatrix \<times> CMatrix \<Rightarrow> CMatrix \<times> CMatrix" where
  "sweep_rotations sz qv =
     fold (\<lambda>p qv. fold (\<lambda>r qv. rotate_pair p r qv) [p + 1..<sz] qv) [0..<sz - 1] qv"

definition diagonal_change :: "nat \<Rightarrow> CMatrix \<Rightarrow> CMatrix \<Rightarrow> real" where
  "diagonal_change sz q prev_q =
     fold (\<lambda>i sum_diff.
         let diff = \<bar>MAT_AT q i i - MAT_AT prev_q i i\<bar>
         in if diff > 1 / 1000 then sum_diff + diff else sum_diff)
       [0..<sz] 0"

text \<open>
  The sweeps after the first one (\<open>1 \<le> sweep\<close>), where \<^verbatim>\<open>prev_q\<close> is set: rotate,
  measure the change of the diagonal, remember the diagonal, and leave the loop when the
  change is at most the threshold or when \<^const>\<open>SVD_MAX_SWEEPS\<close> is reached.
\<close>

function later_sweeps ::
    "nat \<Rightarrow> nat \<Rightarrow> CMatrix \<times> CMatrix \<Rightarrow> CMatrix \<Rightarrow> CMatrix \<times> CMatrix" where
  "later_sweeps sweep sz qv prev_q =
     (if sweep < SVD_MAX_SWEEPS then
        (let qv' = sweep_rotations sz qv;
             sum_diff = diagonal_change sz (fst qv') prev_q;
             prev_q' = prev_q\<lparr>mdata :=
               memcpy (mdata prev_q) 0 (mdata (fst qv')) 0 (sz * sz)\<rparr>
         in if sum_diff \<le> SVD_CONVERGENCE_THRESHOLD then qv'
            else later_sweeps (sweep + 1) sz qv' prev_q')
      else qv)"
  by pat_completeness auto
termination
  by (relation "measure (\<lambda>(sweep, sz, qv, prev_q). SVD_MAX_SWEEPS - sweep)") auto

declare later_sweeps.simps [simp del]

text \<open>
  The whole iteration. Sweep \<open>0\<close> always runs (\<^const>\<open>SVD_MAX_SWEEPS\<close> is 20) and
  ends by cloning \<open>q\<close> into \<^verbatim>\<open>prev_q\<close>; the remaining sweeps are \<^const>\<open>later_sweeps\<close>
  from \<open>sweep = 1\<close>.
\<close>

definition jacobi_iteration :: "nat \<Rightarrow> CMatrix \<Rightarrow> CMatrix \<Rightarrow> CMatrix \<times> CMatrix" where
  "jacobi_iteration sz q v =
     (let qv = sweep_rotations sz (q, v);
          prev_q = cmatrix_clone (fst qv)
      in later_sweeps 1 sz qv prev_q)"

text \<open>The pieces of \<^verbatim>\<open>jacobi_svd\<close> around the iteration, in the order of the source.\<close>

definition work_matrix :: "CMatrix \<Rightarrow> rb_error + CMatrix" where
  "work_matrix a =
     (let m = rows a; n = cols a; a_t = cmatrix_transpose a
      in if m \<ge> n then cmatrix_multiply a_t a else cmatrix_multiply a a_t)"

definition singular_values :: "CMatrix \<Rightarrow> nat \<Rightarrow> CVector" where
  "singular_values q sz =
     (let s = cvector_alloc sz
      in s\<lparr>vdata :=
           fold (\<lambda>i d. d[i := (let val = MAT_AT q i i in if val > 0 then sqrt val else 0)])
             [0..<sz] (vdata s)\<rparr>)"

definition inverse_singular_matrix :: "CVector \<Rightarrow> nat \<Rightarrow> CMatrix" where
  "inverse_singular_matrix s sz =
     (let s_inv = cmatrix_alloc sz sz
      in s_inv\<lparr>mdata :=
           fold (\<lambda>i d. d[i * sz + i :=
                   (let sv = vdata s ! i in if sv > CLASSIFIER_EPSILON then 1 / sv else 0)])
             [0..<sz] (mdata s_inv)\<rparr>)"

definition jacobi_svd :: "CMatrix \<Rightarrow> rb_error + CMatrix \<times> CMatrix \<times> CVector" where
  "jacobi_svd a =
     (let m = rows a; n = cols a; transposed = \<not> m \<ge> n
      in case work_matrix a of
           Inl e \<Rightarrow> Inl e
         | Inr w \<Rightarrow>
             let sz = rows w;
                 qv = jacobi_iteration sz (cmatrix_clone w) (cmatrix_identity sz);
                 q = fst qv; v = snd qv;
                 s = singular_values q sz;
                 s_inv = inverse_singular_matrix s sz;
                 source = (if transposed then cmatrix_transpose a else cmatrix_clone a)
             in case cmatrix_multiply source v of
                  Inl e \<Rightarrow> Inl e
                | Inr temp \<Rightarrow>
                    (case cmatrix_multiply temp s_inv of
                       Inl e \<Rightarrow> Inl e
                     | Inr u \<Rightarrow> Inr (u, v, s)))"

section \<open>Brand's incremental update (incremental\_svd.c)\<close>

text \<open>The cast \<^verbatim>\<open>(size_t)max_rank\<close> of an \<^verbatim>\<open>int\<close> on a 64-bit platform.\<close>

definition size_t_of_int :: "32 word \<Rightarrow> nat" where
  "size_t_of_int x = nat (sint x mod 2 ^ 64)"

text \<open>Step 1 of \<^verbatim>\<open>incremental_update\<close>: \<open>m_vec = U\<^sup>T c\<close>.\<close>

definition project_onto :: "(nat \<Rightarrow> real) \<Rightarrow> CMatrix \<Rightarrow> CVector \<Rightarrow> CVector" where
  "project_onto oob u c =
     (let m = rows u; k = cols u; m_vec = cvector_alloc k
      in m_vec\<lparr>vdata :=
           fold (\<lambda>j d.
               d[j := fold (\<lambda>i sum. sum + MAT_AT u i j * unchecked_read oob c i) [0..<m] 0])
             [0..<k] (vdata m_vec)\<rparr>)"

text \<open>
  The body of \<^verbatim>\<open>incremental_update\<close> is given in three blocks, in the order of the
  source: the truncation (the block under \<^verbatim>\<open>if (s_prime->size > (size_t)max_rank)\<close>),
  the branch taken when \<open>p_norm > epsilon\<close> (normalise the residual, build \<open>K\<close>,
  decompose it, extend and multiply, truncate if needed), and the branch taken otherwise
  (copies of \<open>u\<close> and \<open>s\<close>).
\<close>

definition truncate_rank :: "CMatrix \<Rightarrow> CVector \<Rightarrow> 32 word \<Rightarrow> CMatrix \<times> CVector" where
  "truncate_rank u_new s_prime max_rank =
     (let r = size_t_of_int max_rank;
          u_trunc = cmatrix_alloc (rows u_new) r;
          u_trunc = u_trunc\<lparr>mdata :=
            fold (\<lambda>i d. memcpy d (i * r) (mdata u_new) (i * cols u_new) r)
              [0..<rows u_new] (mdata u_trunc)\<rparr>;
          s_trunc = cvector_alloc r;
          s_trunc = s_trunc\<lparr>vdata := memcpy (vdata s_trunc) 0 (vdata s_prime) 0 r\<rparr>
      in (u_trunc, s_trunc))"

definition new_direction ::
    "(nat \<Rightarrow> real) \<Rightarrow> CMatrix \<Rightarrow> CVector \<Rightarrow> CVector \<Rightarrow> CVector \<Rightarrow> real \<Rightarrow> 32 word
       \<Rightarrow> rb_error + CMatrix \<times> CVector" where
  "new_direction oob u s m_vec p p_norm max_rank =
     (let m = rows u;
          p_hat = cvector_alloc m;
          inv_p_norm = 1 / p_norm;
          p_hat = p_hat\<lparr>vdata :=
            fold (\<lambda>i d. d[i := vdata p ! i * inv_p_norm]) [0..<m] (vdata p_hat)\<rparr>;
          k_mat = build_k_matrix_with_growth oob s m_vec p_norm
      in case jacobi_svd k_mat of
           Inl e \<Rightarrow> Inl e
         | Inr (u_prime, v_prime, s_prime) \<Rightarrow>
        (case cmatrix_extend_column u p_hat of
           Inl e \<Rightarrow> Inl e
         | Inr u_extended \<Rightarrow>
        (case cmatrix_multiply u_extended u_prime of
           Inl e \<Rightarrow> Inl e
         | Inr u_new \<Rightarrow>
             if vsize s_prime > size_t_of_int max_rank
             then Inr (truncate_rank u_new s_prime max_rank)
             else Inr (u_new, s_prime))))"

definition in_span :: "CMatrix \<Rightarrow> CVector \<Rightarrow> CMatrix \<times> CVector" where
  "in_span u s =
     (let u_out = cmatrix_alloc (rows u) (cols u);
          u_out = u_out\<lparr>mdata := memcpy (mdata u_out) 0 (mdata u) 0 (rows u * cols u)\<rparr>;
          s_out = cvector_alloc (vsize s);
          s_out = s_out\<lparr>vdata := memcpy (vdata s_out) 0 (vdata s) 0 (vsize s)\<rparr>
      in (u_out, s_out))"

definition incremental_update ::
    "(nat \<Rightarrow> real) \<Rightarrow> CMatrix \<Rightarrow> CVector \<Rightarrow> CVector \<Rightarrow> 32 word \<Rightarrow> real
       \<Rightarrow> rb_error + CMatrix \<times> CVector" where
  "incremental_update oob u s c max_rank epsilon =
     (let m_vec = project_onto oob u c
      in case cmatrix_multiply_vector u m_vec of
           Inl e \<Rightarrow> Inl e
         | Inr u_times_m \<Rightarrow>
        (case cvector_subtract c u_times_m of
           Inl e \<Rightarrow> Inl e
         | Inr p \<Rightarrow>
             (let p_norm = cvector_magnitude p
              in if p_norm > epsilon
                 then new_direction oob u s m_vec p p_norm max_rank
                 else Inr (in_span u s))))"

section \<open>Auxiliary notions for the statements\<close>

text \<open>The dimensions of the pair \<open>(q, v)\<close> that the Jacobi iteration carries.\<close>

definition shape :: "CMatrix \<times> CMatrix \<Rightarrow> (nat \<times> nat) \<times> (nat \<times> nat)" where
  "shape qv = ((rows (fst qv), cols (fst qv)), (rows (snd qv), cols (snd qv)))"

text \<open>
  Names for the values \<^verbatim>\<open>jacobi_svd\<close> holds after the iteration on the work matrix
  \<open>w\<close>: the rotated \<open>q\<close>, the accumulated \<open>v\<close>, and the matrix chosen as \<^verbatim>\<open>source\<close>.
\<close>

definition final_q :: "CMatrix \<Rightarrow> CMatrix" where
  "final_q w = fst (jacobi_iteration (rows w) (cmatrix_clone w) (cmatrix_identity (rows w)))"

definition accumulated_v :: "CMatrix \<Rightarrow> CMatrix" where
  "accumulated_v w = snd (jacobi_iteration (rows w) (cmatrix_clone w) (cmatrix_identity (rows w)))"

definition recombination_source :: "CMatrix \<Rightarrow> CMatrix" where
  "recombination_source a =
     (if \<not> rows a \<ge> cols a then cmatrix_transpose a else cmatrix_clone a)"

text \<open>
  The product \<open>U\<^sup>T r\<close> written out: entry \<open>j\<close> is the sum of \<open>U[i][j] * r[i]\<close> over the
  rows \<open>i\<close> of \<open>U\<close>. The batch projection is compared with it.
\<close>

definition lsi_vector :: "CMatrix \<Rightarrow> CVector \<Rightarrow> CVector" where
  "lsi_vector u raw = \<lparr>vsize = cols u,
      vdata = map (\<lambda>j. \<Sum>i\<leftarrow>[0..<rows u]. MAT_AT u i j * vdata raw ! i) [0..<cols u],
      is_col = 0\<rparr>"

text \<open>The residual \<open>p\<close> that the code computes when the sizes agree.\<close>

definition residual :: "(nat \<Rightarrow> real) \<Rightarrow> CMatrix \<Rightarrow> CVector \<Rightarrow> CVector" where
  "residual oob u c =
     \<lparr>vsize = vsize c,
      vdata = map (\<lambda>i. vdata c ! i -
                 (\<Sum>j\<leftarrow>[0..<cols u]. MAT_AT u i j * vdata (project_onto oob u c) ! j))
               [0..<vsize c],
      is_col = 0\<rparr>"

text \<open>
  \<open>\<parallel>c - U (U\<^sup>T c)\<parallel>\<close> written out as in section 4.4 of the specification, to compare
  the \<^verbatim>\<open>p_norm\<close> of the code with.
\<close>

definition residual_norm :: "CMatrix \<Rightarrow> CVector \<Rightarrow> real" where
  "residual_norm u c =
     sqrt (\<Sum>i\<leftarrow>[0..<rows u].
        (vdata c ! i -
           (\<Sum>j\<leftarrow>[0..<cols u]. MAT_AT u i j * (\<Sum>l\<leftarrow>[0..<rows u]. MAT_AT u l j * vdata c ! l)))\<^sup>2)"

section \<open>Concrete inputs\<close>

definition tiny_vector :: CVector where
  "tiny_vector = \<lparr>vsize = 1, vdata = [1 / 10 ^ 11], is_col = 0\<rparr>"

definition three_four_vector :: CVector where
  "three_four_vector = \<lparr>vsize = 2, vdata = [3, 4], is_col = 1\<rparr>"

definition identity2 :: CMatrix where
  "identity2 = \<lparr>rows = 2, cols = 2, mdata = [1, 0, 0, 1]\<rparr>"

text \<open>A row vector from a literal sequence, as \<^verbatim>\<open>Vector.alloc(array)\<close> builds it.\<close>

definition vec :: "real list \<Rightarrow> CVector" where
  "vec xs = \<lparr>vsize = length xs, vdata = xs, is_col = 0\<rparr>"

definition wide_matrix :: CMatrix where
  "wide_matrix = \<lparr>rows = 1, cols = 2, mdata = [1, 0]\<rparr>"

definition zero_matrix :: CMatrix where
  "zero_matrix = \<lparr>rows = 1, cols = 1, mdata = [0]\<rparr>"

text \<open>
  The factorisation of section 8 of the specification: \<open>U\<close> is the single column
  \<open>[1, 0, 0]\<^sup>T\<close>. Reads past the end of a buffer find zeros in \<open>no_garbage\<close>.
\<close>

definition column_u :: CMatrix where
  "column_u = \<lparr>rows = 3, cols = 1, mdata = [1, 0, 0]\<rparr>"

definition no_garbage :: "nat \<Rightarrow> real" where
  "no_garbage i = 0"

section \<open>Loops as folds: basic facts\<close>

lemma fold_add_sum_list:
  "fold (\<lambda>i s. s + f i) xs (a::real) = a + sum_list (map f xs)"
  by (induction xs arbitrary: a) (simp_all add: add.assoc)

lemma fold_fill_prefix:
  "n \<le> length d \<Longrightarrow>
     fold (\<lambda>i d. d[i := f i]) [0..<n] d = map f [0..<n] @ drop n d"
proof (induction n)
  case 0
  then show ?case by simp
next
  case (Suc n)
  then have n: "n < length d" by simp
  have "(map f [0..<n] @ drop n d)[n := f n] = map f [0..<n] @ (drop n d)[0 := f n]"
    by (simp add: list_update_append)
  also have "(drop n d)[0 := f n] = f n # drop (Suc n) d"
    using n by (simp add: Cons_nth_drop_Suc [symmetric])
  finally show ?case using Suc n by simp
qed

lemma fold_fill:
  "length d = n \<Longrightarrow> fold (\<lambda>i d. d[i := f i]) [0..<n] d = map f [0..<n]"
  by (simp add: fold_fill_prefix)

lemma length_fold_update [simp]:
  "length (fold (\<lambda>x d. d[g x := h x]) xs d) = length d"
  by (induction xs arbitrary: d) simp_all

lemma fold_update_miss:
  "k \<notin> g ` set xs \<Longrightarrow> fold (\<lambda>x d. d[g x := h x]) xs d ! k = d ! k"
  by (induction xs arbitrary: d) auto

lemma fold_update_hit:
  "distinct (map g xs) \<Longrightarrow> x \<in> set xs \<Longrightarrow> g x < length d \<Longrightarrow>
     fold (\<lambda>x d. d[g x := h x]) xs d ! g x = h x"
proof (induction xs arbitrary: d)
  case Nil
  then show ?case by simp
next
  case (Cons y ys)
  show ?case
  proof (cases "x = y")
    case True
    have "g y \<notin> g ` set ys" using Cons.prems(1) by auto
    then show ?thesis using True Cons.prems(3) by (simp add: fold_update_miss)
  next
    case False
    then show ?thesis using Cons by simp
  qed
qed

lemma nested_fold_product:
  "fold (\<lambda>i d. fold (\<lambda>j d. d[g i j := h i j]) js d) is d =
     fold (\<lambda>p d. d[g (fst p) (snd p) := h (fst p) (snd p)]) (List.product is js) d"
proof (induction "is" arbitrary: d)
  case Nil
  then show ?case by simp
next
  case (Cons i "is")
  then show ?case by (simp add: fold_map comp_def)
qed

section \<open>Normalisation (claim C7)\<close>

lemma magnitude_sum_list:
  "cvector_magnitude v = sqrt (\<Sum>i\<leftarrow>[0..<vsize v]. vdata v ! i * vdata v ! i)"
  by (simp add: cvector_magnitude_def fold_add_sum_list)

lemma sum_list_squares_nonneg: "0 \<le> (\<Sum>i\<leftarrow>xs. f i * (f i :: real))"
  by (induction xs) simp_all

lemma normalize_small:
  "cvector_magnitude v \<le> CLASSIFIER_EPSILON \<Longrightarrow>
     cvector_normalize v = \<lparr>vsize = vsize v, vdata = replicate (vsize v) 0, is_col = is_col v\<rparr>"
  by (simp add: cvector_normalize_def cvector_alloc_def Let_def)

lemma normalize_large:
  "\<not> cvector_magnitude v \<le> CLASSIFIER_EPSILON \<Longrightarrow>
     cvector_normalize v =
       \<lparr>vsize = vsize v,
        vdata = map (\<lambda>i. vdata v ! i / cvector_magnitude v) [0..<vsize v],
        is_col = is_col v\<rparr>"
  by (simp add: cvector_normalize_def cvector_alloc_def Let_def fold_fill)

lemma sum_list_divide:
  "(\<Sum>i\<leftarrow>xs. f i / (c::real)) = (\<Sum>i\<leftarrow>xs. f i) / c"
  by (induction xs) (simp_all add: add_divide_distrib)

lemma magnitude_scaled:
  assumes "0 < cvector_magnitude v"
  shows "cvector_magnitude
           \<lparr>vsize = vsize v,
            vdata = map (\<lambda>i. vdata v ! i / cvector_magnitude v) [0..<vsize v],
            is_col = t\<rparr> = 1"
proof -
  let ?m = "cvector_magnitude v"
  let ?S = "\<Sum>i\<leftarrow>[0..<vsize v]. vdata v ! i * vdata v ! i"
  have S: "?m * ?m = ?S"
    by (simp add: magnitude_sum_list sum_list_squares_nonneg)
  have "(\<Sum>i\<leftarrow>[0..<vsize v]. (map (\<lambda>i. vdata v ! i / ?m) [0..<vsize v]) ! i
            * (map (\<lambda>i. vdata v ! i / ?m) [0..<vsize v]) ! i)
        = (\<Sum>i\<leftarrow>[0..<vsize v]. (vdata v ! i * vdata v ! i) / (?m * ?m))"
    by (rule arg_cong [where f = sum_list], rule map_cong) simp_all
  also have "\<dots> = ?S / (?m * ?m)"
    by (rule sum_list_divide)
  also have "\<dots> = 1" using assms by (simp add: S [symmetric])
  finally show ?thesis by (simp add: magnitude_sum_list)
qed


text \<open>
  Claim C7, as the code has it. When the magnitude exceeds \<open>1e-10\<close>,
  \<^verbatim>\<open>cvector_normalize\<close> returns the vector scaled by \<open>1 / magnitude\<close>, whose
  magnitude is \<open>1\<close> (in exact arithmetic). When the magnitude is at most \<open>1e-10\<close>
  it returns the all-zero vector of the same size, which is the input only when the
  input is itself zero. In both cases the orientation tag is the input's. The input is an
  argument of a pure function and cannot change.
\<close>

theorem normalize_spec:
  "(CLASSIFIER_EPSILON < cvector_magnitude v \<longrightarrow>
      vsize (cvector_normalize v) = vsize v \<and>
      vdata (cvector_normalize v) =
        map (\<lambda>i. vdata v ! i * (1 / cvector_magnitude v)) [0..<vsize v] \<and>
      cvector_magnitude (cvector_normalize v) = 1) \<and>
   (cvector_magnitude v \<le> CLASSIFIER_EPSILON \<longrightarrow>
      vsize (cvector_normalize v) = vsize v \<and>
      vdata (cvector_normalize v) = replicate (vsize v) 0) \<and>
   is_col (cvector_normalize v) = is_col v"
proof -
  have eps: "0 < CLASSIFIER_EPSILON" by (simp add: CLASSIFIER_EPSILON_def)
  have tag: "is_col (cvector_normalize v) = is_col v"
    by (simp add: cvector_normalize_def cvector_alloc_def Let_def)
  have small: "cvector_magnitude v \<le> CLASSIFIER_EPSILON \<longrightarrow>
      vsize (cvector_normalize v) = vsize v \<and>
      vdata (cvector_normalize v) = replicate (vsize v) 0"
    by (simp add: normalize_small)
  have large: "CLASSIFIER_EPSILON < cvector_magnitude v \<longrightarrow>
      vsize (cvector_normalize v) = vsize v \<and>
      vdata (cvector_normalize v) =
        map (\<lambda>i. vdata v ! i * (1 / cvector_magnitude v)) [0..<vsize v] \<and>
      cvector_magnitude (cvector_normalize v) = 1"
  proof
    assume big: "CLASSIFIER_EPSILON < cvector_magnitude v"
    then have n: "\<not> cvector_magnitude v \<le> CLASSIFIER_EPSILON" by simp
    have pos: "0 < cvector_magnitude v" using big eps by linarith
    show "vsize (cvector_normalize v) = vsize v \<and>
      vdata (cvector_normalize v) =
        map (\<lambda>i. vdata v ! i * (1 / cvector_magnitude v)) [0..<vsize v] \<and>
      cvector_magnitude (cvector_normalize v) = 1"
      using magnitude_scaled [OF pos, of "is_col v"]
      by (simp add: normalize_large [OF n])
  qed
  from large small tag show ?thesis by blast
qed

lemma magnitude_tiny: "cvector_magnitude tiny_vector = 1 / 10 ^ 11"
proof -
  have "cvector_magnitude tiny_vector = sqrt ((1 / 10 ^ 11) * (1 / 10 ^ 11))"
    by (simp add: cvector_magnitude_def tiny_vector_def)
  also have "\<dots> = \<bar>1 / 10 ^ 11\<bar>" by (rule real_sqrt_abs2)
  finally show ?thesis by simp
qed

text \<open>
  The claim as worded ("the result equals the input") fails for a non-zero vector of
  magnitude \<open>1e-11\<close>: the result is \<open>[0]\<close>.
\<close>

theorem normalize_unchanged_counterexample:
  "cvector_magnitude tiny_vector \<le> CLASSIFIER_EPSILON \<and> cvector_normalize tiny_vector \<noteq> tiny_vector"
proof -
  have le: "cvector_magnitude tiny_vector \<le> CLASSIFIER_EPSILON"
    by (simp add: magnitude_tiny CLASSIFIER_EPSILON_def)
  have "vdata (cvector_normalize tiny_vector) = [0]"
    using normalize_small [OF le] by (simp add: tiny_vector_def)
  then have "cvector_normalize tiny_vector \<noteq> tiny_vector" by (auto simp: tiny_vector_def)
  with le show ?thesis by simp
qed

lemma magnitude_three_four: "cvector_magnitude three_four_vector = 5"
proof -
  have "cvector_magnitude three_four_vector = sqrt (5 * 5)"
    by (simp add: cvector_magnitude_def three_four_vector_def upt_rec)
  also have "\<dots> = \<bar>5\<bar>" by (rule real_sqrt_abs2)
  finally show ?thesis by simp
qed

theorem normalize_spec_witness:
  "CLASSIFIER_EPSILON < cvector_magnitude three_four_vector \<and>
   cvector_normalize three_four_vector = \<lparr>vsize = 2, vdata = [3 / 5, 4 / 5], is_col = 1\<rparr> \<and>
   cvector_magnitude (cvector_normalize three_four_vector) = 1 \<and>
   cvector_magnitude tiny_vector \<le> CLASSIFIER_EPSILON \<and>
   cvector_normalize tiny_vector = \<lparr>vsize = 1, vdata = [0], is_col = 0\<rparr>"
proof -
  have big: "CLASSIFIER_EPSILON < cvector_magnitude three_four_vector"
    by (simp add: magnitude_three_four CLASSIFIER_EPSILON_def)
  have le: "cvector_magnitude tiny_vector \<le> CLASSIFIER_EPSILON"
    by (simp add: magnitude_tiny CLASSIFIER_EPSILON_def)
  have a: "vsize (cvector_normalize three_four_vector) = 2 \<and>
      vdata (cvector_normalize three_four_vector) = [3 / 5, 4 / 5] \<and>
      cvector_magnitude (cvector_normalize three_four_vector) = 1 \<and>
      is_col (cvector_normalize three_four_vector) = 1"
    using normalize_spec [of three_four_vector] big
    by (simp add: magnitude_three_four) (simp add: three_four_vector_def upt_rec)
  have b: "vsize (cvector_normalize tiny_vector) = 1 \<and>
      vdata (cvector_normalize tiny_vector) = [0] \<and> is_col (cvector_normalize tiny_vector) = 0"
    using normalize_spec [of tiny_vector] le by (simp add: tiny_vector_def)
  from a b big le show ?thesis by (simp add: CVector.equality)
qed

section \<open>Batch projection (claims C8 and C10)\<close>

lemma rows_transpose [simp]: "rows (cmatrix_transpose m) = cols m"
  and cols_transpose [simp]: "cols (cmatrix_transpose m) = rows m"
  by (simp_all add: cmatrix_transpose_def cmatrix_alloc_def Let_def)

lemma pair_index_inj:
  assumes "i < r" "i' < r" "j * r + i = j' * r + (i'::nat)"
  shows "i = i' \<and> j = j'"
proof -
  from assms(3) have "(j * r + i) mod r = (j' * r + i') mod r" by simp
  then have i: "i = i'" using assms(1,2) by simp
  from assms(3) have "(j * r + i) div r = (j' * r + i') div r" by simp
  then have "j = j'" using assms(1,2) by simp
  with i show ?thesis by simp
qed

lemma distinct_transposed_indices:
  "distinct (map (\<lambda>p. snd p * r + fst p) (List.product [0..<r] [0..<c]))"
  by (auto simp: distinct_map distinct_product inj_on_def dest: pair_index_inj)

lemma transposed_index_bound: "i < r \<Longrightarrow> j < c \<Longrightarrow> j * r + i < c * (r::nat)"
proof -
  assume a: "i < r" "j < c"
  have "j * r + i < j * r + r" using a by simp
  also have "\<dots> = (j + 1) * r" by simp
  also have "\<dots> \<le> c * r" using a by (intro mult_le_mono1) simp
  finally show ?thesis .
qed

lemma MAT_AT_transpose:
  assumes "i < rows m" "j < cols m"
  shows "MAT_AT (cmatrix_transpose m) j i = MAT_AT m i j"
proof -
  let ?xs = "List.product [0..<rows m] [0..<cols m]"
  have mem: "(i, j) \<in> set ?xs" using assms by simp
  have len: "(\<lambda>p. snd p * rows m + fst p) (i, j) < length (replicate (cols m * rows m) (0::real))"
    using transposed_index_bound [OF assms] by simp
  have "fold (\<lambda>p d. d[snd p * rows m + fst p := MAT_AT m (fst p) (snd p)]) ?xs
          (replicate (cols m * rows m) 0) ! ((\<lambda>p. snd p * rows m + fst p) (i, j))
        = (\<lambda>p. MAT_AT m (fst p) (snd p)) (i, j)"
    by (rule fold_update_hit [OF distinct_transposed_indices mem len])
  moreover have "mdata (cmatrix_transpose m) =
      fold (\<lambda>p d. d[snd p * rows m + fst p := MAT_AT m (fst p) (snd p)]) ?xs
          (replicate (cols m * rows m) 0)"
    by (simp add: cmatrix_transpose_def cmatrix_alloc_def Let_def nested_fold_product)
  moreover have "MAT_AT (cmatrix_transpose m) j i = mdata (cmatrix_transpose m) ! (j * rows m + i)"
    by (simp add: MAT_AT_def)
  ultimately show ?thesis by simp
qed

lemma multiply_vector_ok:
  "cols m = vsize v \<Longrightarrow>
     cmatrix_multiply_vector m v =
       Inr \<lparr>vsize = rows m,
            vdata = map (\<lambda>i. fold (\<lambda>j sum. sum + MAT_AT m i j * vdata v ! j) [0..<cols m] 0)
                      [0..<rows m],
            is_col = 0\<rparr>"
  by (simp add: cmatrix_multiply_vector_def cvector_alloc_def Let_def fold_fill)

lemma lsi_vector_transpose:
  assumes "vsize raw = rows u"
  shows "cmatrix_multiply_vector (cmatrix_transpose u) raw = Inr (lsi_vector u raw)"
proof -
  have "map (\<lambda>j. fold (\<lambda>i sum. sum + MAT_AT (cmatrix_transpose u) j i * vdata raw ! i)
                [0..<rows u] 0) [0..<cols u]
      = map (\<lambda>j. \<Sum>i\<leftarrow>[0..<rows u]. MAT_AT u i j * vdata raw ! i) [0..<cols u]"
  proof (rule map_cong [OF refl])
    fix j assume "j \<in> set [0..<cols u]"
    then have j: "j < cols u" by simp
    have eq: "map (\<lambda>i. MAT_AT (cmatrix_transpose u) j i * vdata raw ! i) [0..<rows u]
        = map (\<lambda>i. MAT_AT u i j * vdata raw ! i) [0..<rows u]"
      by (rule map_cong [OF refl]) (simp add: MAT_AT_transpose j)
    show "fold (\<lambda>i sum. sum + MAT_AT (cmatrix_transpose u) j i * vdata raw ! i)
                [0..<rows u] 0 = (\<Sum>i\<leftarrow>[0..<rows u]. MAT_AT u i j * vdata raw ! i)"
      unfolding fold_add_sum_list eq by simp
  qed
  then show ?thesis using assms by (simp add: multiply_vector_ok lsi_vector_def)
qed

lemma cbatch_project_Cons_ok:
  "vsize raw = rows u \<Longrightarrow>
     cbatch_project u (raw # raws) =
       (case cbatch_project u raws of Inl e \<Rightarrow> Inl e | Inr out \<Rightarrow> Inr (lsi_vector u raw # out))"
  by (cases "cbatch_project u raws")
     (simp_all add: Let_def cvector_alloc_def fold_fill fold_add_sum_list lsi_vector_def)

lemma cbatch_project_ok:
  "\<forall>r \<in> set raws. vsize r = rows u \<Longrightarrow> cbatch_project u raws = Inr (map (lsi_vector u) raws)"
proof (induction raws)
  case Nil
  then show ?case by simp
next
  case (Cons raw raws)
  then show ?case by (simp add: cbatch_project_Cons_ok del: cbatch_project.simps)
qed

lemma cbatch_project_error:
  "\<exists>r \<in> set raws. vsize r \<noteq> rows u \<Longrightarrow> cbatch_project u raws = Inl ArgError"
proof (induction raws)
  case Nil
  then show ?case by simp
next
  case (Cons raw raws)
  show ?case
  proof (cases "vsize raw = rows u")
    case True
    with Cons show ?thesis by (simp add: cbatch_project_Cons_ok del: cbatch_project.simps)
  next
    case False
    then show ?thesis by (simp add: Let_def)
  qed
qed


lemma unwrap_vectors_map: "unwrap_vectors (map RVector vs) = Inr vs"
  by (induction vs) simp_all

text \<open>
  Claim C8. When every input vector has size \<open>m = rows u\<close>, \<^verbatim>\<open>cbatch_project\<close>
  returns one vector per input; the \<open>v\<close>-th output has size \<open>k = cols u\<close>, it is what
  the code's own matrix-vector product gives for the transpose of \<open>u\<close>, and its entry
  \<open>j\<close> is the sum of \<open>U[i][j] * r[i]\<close>. When some input vector has another size, the
  call raises an argument error. The Ruby method, given an array of Vectors, is this
  function.
\<close>

theorem batch_project_spec:
  "((\<forall>r \<in> set raw_vectors. vsize r = rows u) \<longrightarrow>
      (\<exists>out. cbatch_project u raw_vectors = Inr out \<and>
         length out = length raw_vectors \<and>
         (\<forall>v < length raw_vectors.
            vsize (out ! v) = cols u \<and>
            cmatrix_multiply_vector (cmatrix_transpose u) (raw_vectors ! v) = Inr (out ! v) \<and>
            (\<forall>j < cols u.
               vdata (out ! v) ! j =
                 (\<Sum>i\<leftarrow>[0..<rows u]. MAT_AT u i j * vdata (raw_vectors ! v) ! i))))) \<and>
   ((\<exists>r \<in> set raw_vectors. vsize r \<noteq> rows u) \<longrightarrow>
      cbatch_project u raw_vectors = Inl ArgError) \<and>
   rb_cmatrix_batch_project u (RArray (map RVector raw_vectors)) = cbatch_project u raw_vectors"
proof (intro conjI impI)
  assume ok: "\<forall>r \<in> set raw_vectors. vsize r = rows u"
  have "\<forall>v < length raw_vectors.
            vsize (map (lsi_vector u) raw_vectors ! v) = cols u \<and>
            cmatrix_multiply_vector (cmatrix_transpose u) (raw_vectors ! v)
              = Inr (map (lsi_vector u) raw_vectors ! v) \<and>
            (\<forall>j < cols u.
               vdata (map (lsi_vector u) raw_vectors ! v) ! j =
                 (\<Sum>i\<leftarrow>[0..<rows u]. MAT_AT u i j * vdata (raw_vectors ! v) ! i))"
  proof (intro allI impI)
    fix v assume v: "v < length raw_vectors"
    then have "vsize (raw_vectors ! v) = rows u" using ok by simp
    then show "vsize (map (lsi_vector u) raw_vectors ! v) = cols u \<and>
            cmatrix_multiply_vector (cmatrix_transpose u) (raw_vectors ! v)
              = Inr (map (lsi_vector u) raw_vectors ! v) \<and>
            (\<forall>j < cols u.
               vdata (map (lsi_vector u) raw_vectors ! v) ! j =
                 (\<Sum>i\<leftarrow>[0..<rows u]. MAT_AT u i j * vdata (raw_vectors ! v) ! i))"
      using v by (simp add: lsi_vector_transpose) (simp add: lsi_vector_def)
  qed
  then show "\<exists>out. cbatch_project u raw_vectors = Inr out \<and>
         length out = length raw_vectors \<and>
         (\<forall>v < length raw_vectors.
            vsize (out ! v) = cols u \<and>
            cmatrix_multiply_vector (cmatrix_transpose u) (raw_vectors ! v) = Inr (out ! v) \<and>
            (\<forall>j < cols u.
               vdata (out ! v) ! j =
                 (\<Sum>i\<leftarrow>[0..<rows u]. MAT_AT u i j * vdata (raw_vectors ! v) ! i)))"
    using cbatch_project_ok [OF ok] by simp
next
  assume "\<exists>r \<in> set raw_vectors. vsize r \<noteq> rows u"
  then show "cbatch_project u raw_vectors = Inl ArgError" by (rule cbatch_project_error)
next
  show "rb_cmatrix_batch_project u (RArray (map RVector raw_vectors))
      = cbatch_project u raw_vectors"
  proof (cases raw_vectors)
    case Nil
    then show ?thesis by simp
  next
    case (Cons raw rest)
    then show ?thesis by (simp add: unwrap_vectors_map del: cbatch_project.simps)
  qed
qed



text \<open>
  The identity projection of section 8 of the specification, and a batch whose second
  vector has three entries.
\<close>

theorem batch_project_spec_witness:
  "vsize (vec [3, 4]) = rows identity2 \<and> vsize (vec [5, 6]) = rows identity2 \<and>
   cbatch_project identity2 [vec [3, 4], vec [5, 6]] = Inr [vec [3, 4], vec [5, 6]] \<and>
   cmatrix_multiply_vector (cmatrix_transpose identity2) (vec [5, 6]) = Inr (vec [5, 6]) \<and>
   (\<exists>r \<in> set [vec [3, 4], vec [5, 6, 7]]. vsize r \<noteq> rows identity2) \<and>
   cbatch_project identity2 [vec [3, 4], vec [5, 6, 7]] = Inl ArgError"
proof -
  let ?good = "[vec [3, 4], vec [5, 6]]"
  let ?bad = "[vec [3, 4], vec [5, 6, 7]]"
  have ok: "\<forall>r \<in> set ?good. vsize r = rows identity2"
    by (simp add: vec_def identity2_def)
  have bad: "\<exists>r \<in> set ?bad. vsize r \<noteq> rows identity2"
    by (simp add: vec_def identity2_def)
  have run: "cbatch_project identity2 ?good = Inr ?good"
    by code_simp
  note good_case = batch_project_spec [of ?good identity2, THEN conjunct1, THEN mp, OF ok]
  then obtain out where out: "cbatch_project identity2 ?good = Inr out"
    and each: "\<forall>v < length ?good.
            vsize (out ! v) = cols identity2 \<and>
            cmatrix_multiply_vector (cmatrix_transpose identity2) (?good ! v) = Inr (out ! v) \<and>
            (\<forall>j < cols identity2.
               vdata (out ! v) ! j =
                 (\<Sum>i\<leftarrow>[0..<rows identity2]. MAT_AT identity2 i j * vdata (?good ! v) ! i))"
    by (elim exE conjE)
  from out run have o: "out = ?good" by simp
  have "(1::nat) < length ?good" by simp
  from each [rule_format, OF this]
  have tr: "cmatrix_multiply_vector (cmatrix_transpose identity2) (vec [5, 6]) = Inr (vec [5, 6])"
    by (simp add: o)
  note err = batch_project_spec [of ?bad identity2, THEN conjunct2, THEN conjunct1, THEN mp, OF bad]
  have sizes: "vsize (vec [3, 4]) = rows identity2 \<and> vsize (vec [5, 6]) = rows identity2"
    by (simp add: vec_def identity2_def)
  from sizes run tr bad err show ?thesis by (intro conjI) simp_all
qed

text \<open>
  Claim C10. For an empty array the wrapper returns a new empty array and no error,
  whatever the matrix is (the result does not depend on \<open>u\<close>, which is not inspected
  before the return); the core loop on no vectors does the same.
\<close>

theorem batch_project_empty:
  "rb_cmatrix_batch_project u (RArray []) = Inr [] \<and> cbatch_project u [] = Inr []"
  by simp

theorem batch_project_empty_witness:
  "rb_cmatrix_batch_project (cmatrix_alloc 0 0) (RArray []) = Inr [] \<and>
   rb_cmatrix_batch_project (cmatrix_alloc 0 3) (RArray []) = Inr [] \<and>
   rb_cmatrix_batch_project (cmatrix_alloc 3 0) (RArray []) = Inr [] \<and>
   rb_cmatrix_batch_project identity2 (RArray []) = Inr []"
  using batch_project_empty [of "cmatrix_alloc 0 0"] batch_project_empty [of "cmatrix_alloc 0 3"]
    batch_project_empty [of "cmatrix_alloc 3 0"] batch_project_empty [of identity2]
  by simp

section \<open>Shapes through the Jacobi SVD\<close>

lemma multiply_ok:
  "cols a = rows b \<Longrightarrow>
     \<exists>r. cmatrix_multiply a b = Inr r \<and> rows r = rows a \<and> cols r = cols b"
  by (simp add: cmatrix_multiply_def cmatrix_alloc_def Let_def)

lemma multiply_error: "cols a \<noteq> rows b \<Longrightarrow> cmatrix_multiply a b = Inl ArgError"
  by (simp add: cmatrix_multiply_def)

lemma rows_clone [simp]: "rows (cmatrix_clone m) = rows m"
  and cols_clone [simp]: "cols (cmatrix_clone m) = cols m"
  by (simp_all add: cmatrix_clone_def cmatrix_alloc_def Let_def)

lemma rows_identity [simp]: "rows (cmatrix_identity n) = n"
  and cols_identity [simp]: "cols (cmatrix_identity n) = n"
  by (simp_all add: cmatrix_identity_def cmatrix_alloc_def Let_def)

lemma shape_apply_jacobi_rotation:
  "shape (apply_jacobi_rotation q v p r cosine sine) = shape (q, v)"
  by (simp add: apply_jacobi_rotation_def shape_def Let_def)

lemma shape_rotate_pair: "shape (rotate_pair p r qv) = shape qv"
  by (simp add: rotate_pair_def Let_def shape_apply_jacobi_rotation)

lemma shape_inner_loop: "shape (fold (\<lambda>r qv. rotate_pair p r qv) rs qv) = shape qv"
  by (induction rs arbitrary: qv) (simp_all add: shape_rotate_pair)

lemma shape_outer_loop:
  "shape (fold (\<lambda>p qv. fold (\<lambda>r qv. rotate_pair p r qv) [p + 1..<sz] qv) ps qv) = shape qv"
  by (induction ps arbitrary: qv) (simp_all add: shape_inner_loop)

lemma shape_sweep_rotations: "shape (sweep_rotations sz qv) = shape qv"
  unfolding sweep_rotations_def by (rule shape_outer_loop)

lemma shape_later_sweeps: "shape (later_sweeps sweep sz qv prev_q) = shape qv"
proof (induction "SVD_MAX_SWEEPS - sweep" arbitrary: sweep qv prev_q)
  case 0
  then have "\<not> sweep < SVD_MAX_SWEEPS" by simp
  then show ?case by (subst later_sweeps.simps) simp
next
  case (Suc n)
  then have lt: "sweep < SVD_MAX_SWEEPS" and n: "n = SVD_MAX_SWEEPS - (sweep + 1)" by simp_all
  let ?qv = "sweep_rotations sz qv"
  let ?prev = "prev_q\<lparr>mdata := memcpy (mdata prev_q) 0 (mdata (fst ?qv)) 0 (sz * sz)\<rparr>"
  have step: "later_sweeps sweep sz qv prev_q =
      (if diagonal_change sz (fst ?qv) prev_q \<le> SVD_CONVERGENCE_THRESHOLD then ?qv
       else later_sweeps (sweep + 1) sz ?qv ?prev)"
    by (subst later_sweeps.simps) (simp add: lt Let_def)
  have "shape (later_sweeps (sweep + 1) sz ?qv ?prev) = shape ?qv"
    by (rule Suc.hyps(1) [OF n])
  then show ?case by (simp add: step shape_sweep_rotations)
qed

lemma shape_jacobi_iteration: "shape (jacobi_iteration sz q v) = shape (q, v)"
  by (simp add: jacobi_iteration_def Let_def shape_later_sweeps shape_sweep_rotations)

lemma work_matrix_ok:
  "\<exists>w. work_matrix a = Inr w \<and> rows w = min (rows a) (cols a) \<and> cols w = min (rows a) (cols a)"
proof (cases "rows a \<ge> cols a")
  case True
  have "cols (cmatrix_transpose a) = rows a" by simp
  from multiply_ok [OF this] True show ?thesis
    by (auto simp: work_matrix_def Let_def min_def)
next
  case False
  have "cols a = rows (cmatrix_transpose a)" by simp
  from multiply_ok [OF this] False show ?thesis
    by (auto simp: work_matrix_def Let_def min_def)
qed

lemma vsize_singular_values [simp]: "vsize (singular_values q sz) = sz"
  by (simp add: singular_values_def cvector_alloc_def Let_def)

lemma vdata_singular_values:
  "vdata (singular_values q sz) =
     map (\<lambda>i. if MAT_AT q i i > 0 then sqrt (MAT_AT q i i) else 0) [0..<sz]"
  by (simp add: singular_values_def cvector_alloc_def Let_def fold_fill)

lemma rows_inverse_singular_matrix [simp]: "rows (inverse_singular_matrix s sz) = sz"
  and cols_inverse_singular_matrix [simp]: "cols (inverse_singular_matrix s sz) = sz"
  by (simp_all add: inverse_singular_matrix_def cmatrix_alloc_def Let_def)

lemma jacobi_svd_unfold:
  assumes w: "work_matrix a = Inr w"
  shows "jacobi_svd a =
     (case cmatrix_multiply (recombination_source a) (accumulated_v w) of
        Inl e \<Rightarrow> Inl e
      | Inr temp \<Rightarrow>
          (case cmatrix_multiply temp
                  (inverse_singular_matrix (singular_values (final_q w) (rows w)) (rows w)) of
             Inl e \<Rightarrow> Inl e
           | Inr u \<Rightarrow> Inr (u, accumulated_v w, singular_values (final_q w) (rows w))))"
  unfolding jacobi_svd_def w Let_def recombination_source_def final_q_def accumulated_v_def
  by simp

lemma shape_accumulated_v [simp]:
  "rows (accumulated_v w) = rows w" "cols (accumulated_v w) = rows w"
proof -
  have "shape (jacobi_iteration (rows w) (cmatrix_clone w) (cmatrix_identity (rows w)))
      = shape (cmatrix_clone w, cmatrix_identity (rows w))"
    by (rule shape_jacobi_iteration)
  then show "rows (accumulated_v w) = rows w" "cols (accumulated_v w) = rows w"
    by (simp_all add: shape_def accumulated_v_def)
qed

lemma shape_recombination_source [simp]:
  "rows (recombination_source a) = max (rows a) (cols a)"
  "cols (recombination_source a) = min (rows a) (cols a)"
  by (simp_all add: recombination_source_def min_def max_def)

lemma jacobi_svd_result:
  "\<exists>w temp u.
     work_matrix a = Inr w \<and>
     rows w = min (rows a) (cols a) \<and>
     cmatrix_multiply (recombination_source a) (accumulated_v w) = Inr temp \<and>
     cmatrix_multiply temp
       (inverse_singular_matrix (singular_values (final_q w) (rows w)) (rows w)) = Inr u \<and>
     rows u = max (rows a) (cols a) \<and> cols u = min (rows a) (cols a) \<and>
     jacobi_svd a = Inr (u, accumulated_v w, singular_values (final_q w) (rows w))"
proof -
  obtain w where w: "work_matrix a = Inr w" and rw: "rows w = min (rows a) (cols a)"
    using work_matrix_ok by blast
  let ?s = "singular_values (final_q w) (rows w)"
  have "cols (recombination_source a) = rows (accumulated_v w)" by (simp add: rw)
  from multiply_ok [OF this] obtain temp
    where t: "cmatrix_multiply (recombination_source a) (accumulated_v w) = Inr temp"
      and td0: "rows temp = rows (recombination_source a)" "cols temp = cols (accumulated_v w)"
    by (elim exE conjE)
  have td: "rows temp = max (rows a) (cols a)" "cols temp = rows w"
    using td0 by simp_all
  have "cols temp = rows (inverse_singular_matrix ?s (rows w))" by (simp add: td)
  from multiply_ok [OF this] obtain u
    where u: "cmatrix_multiply temp (inverse_singular_matrix ?s (rows w)) = Inr u"
      and ud0: "rows u = rows temp" "cols u = cols (inverse_singular_matrix ?s (rows w))"
    by (elim exE conjE)
  have ud: "rows u = max (rows a) (cols a)" "cols u = min (rows a) (cols a)"
    using ud0 td(1) rw by simp_all
  have j: "jacobi_svd a = Inr (u, accumulated_v w, ?s)"
    by (simp add: jacobi_svd_unfold [OF w] t u)
  show ?thesis
    by (intro exI [of _ w] exI [of _ temp] exI [of _ u] conjI w rw t u ud j)
qed


section \<open>The Jacobi SVD (claims C2, C5 and C6)\<close>

lemma iteration_1x1:
  "jacobi_iteration (Suc 0) \<lparr>rows = Suc 0, cols = Suc 0, mdata = [x]\<rparr>
       \<lparr>rows = Suc 0, cols = Suc 0, mdata = [1]\<rparr>
     = (\<lparr>rows = Suc 0, cols = Suc 0, mdata = [x]\<rparr>, \<lparr>rows = Suc 0, cols = Suc 0, mdata = [1]\<rparr>)"
  by (simp add: jacobi_iteration_def sweep_rotations_def later_sweeps.simps [of "Suc 0"]
      cmatrix_clone_def cmatrix_alloc_def memcpy_def diagonal_change_def MAT_AT_def
      SVD_MAX_SWEEPS_def SVD_CONVERGENCE_THRESHOLD_def)

lemma final_q_1x1:
  "final_q \<lparr>rows = Suc 0, cols = Suc 0, mdata = [x]\<rparr> = \<lparr>rows = Suc 0, cols = Suc 0, mdata = [x]\<rparr>"
  by (simp add: final_q_def cmatrix_clone_def cmatrix_identity_def cmatrix_alloc_def memcpy_def
      iteration_1x1)

lemma accumulated_v_1x1:
  "accumulated_v \<lparr>rows = Suc 0, cols = Suc 0, mdata = [x]\<rparr> = \<lparr>rows = Suc 0, cols = Suc 0, mdata = [1]\<rparr>"
  by (simp add: accumulated_v_def cmatrix_clone_def cmatrix_identity_def cmatrix_alloc_def
      memcpy_def iteration_1x1)

lemma work_wide: "work_matrix wide_matrix = Inr \<lparr>rows = Suc 0, cols = Suc 0, mdata = [1]\<rparr>"
  by (simp add: wide_matrix_def work_matrix_def cmatrix_transpose_def cmatrix_multiply_def
      cmatrix_alloc_def MAT_AT_def Let_def upt_conv_Cons numeral_2_eq_2)

lemma work_zero: "work_matrix zero_matrix = Inr \<lparr>rows = Suc 0, cols = Suc 0, mdata = [0]\<rparr>"
  by (simp add: zero_matrix_def work_matrix_def cmatrix_transpose_def cmatrix_multiply_def
      cmatrix_alloc_def MAT_AT_def Let_def)

lemma svd_wide:
  "jacobi_svd wide_matrix =
     Inr (\<lparr>rows = 2, cols = 1, mdata = [1, 0]\<rparr>, \<lparr>rows = 1, cols = 1, mdata = [1]\<rparr>,
          \<lparr>vsize = 1, vdata = [1], is_col = 0\<rparr>)"
  unfolding jacobi_svd_unfold [OF work_wide]
  by (simp add: final_q_1x1 accumulated_v_1x1 singular_values_def cvector_alloc_def
        inverse_singular_matrix_def MAT_AT_def CLASSIFIER_EPSILON_def recombination_source_def
        wide_matrix_def cmatrix_transpose_def cmatrix_multiply_def cmatrix_alloc_def Let_def
        upt_conv_Cons numeral_2_eq_2)

lemma svd_zero:
  "jacobi_svd zero_matrix =
     Inr (\<lparr>rows = 1, cols = 1, mdata = [0]\<rparr>, \<lparr>rows = 1, cols = 1, mdata = [1]\<rparr>,
          \<lparr>vsize = 1, vdata = [0], is_col = 0\<rparr>)"
  unfolding jacobi_svd_unfold [OF work_zero]
  by (simp add: final_q_1x1 accumulated_v_1x1 singular_values_def cvector_alloc_def
        inverse_singular_matrix_def MAT_AT_def CLASSIFIER_EPSILON_def recombination_source_def
        zero_matrix_def cmatrix_clone_def memcpy_def cmatrix_multiply_def cmatrix_alloc_def Let_def)

text \<open>
  Claim C2, as the code has it. For \<open>m < n\<close> the solver returns
  \<open>U = A\<^sup>T V S\<^sup>-\<^sup>1\<close>, computed by two calls of \<^verbatim>\<open>cmatrix_multiply\<close> from the
  transpose of the input, the returned \<open>V\<close> and the inverse of the returned singular
  values. This \<open>U\<close> has \<open>n\<close> rows and \<open>m\<close> columns, the shape of the transpose.
\<close>

theorem jacobi_svd_wide_shape:
  "rows a < cols a \<Longrightarrow>
     \<exists>u v s temp.
       jacobi_svd a = Inr (u, v, s) \<and>
       cmatrix_multiply (cmatrix_transpose a) v = Inr temp \<and>
       cmatrix_multiply temp (inverse_singular_matrix s (rows a)) = Inr u \<and>
       rows u = cols a \<and> cols u = rows a"
proof -
  assume wide: "rows a < cols a"
  then have src: "recombination_source a = cmatrix_transpose a"
    by (simp add: recombination_source_def)
  from jacobi_svd_result [of a] obtain w temp u where
    rw: "rows w = min (rows a) (cols a)" and
    t: "cmatrix_multiply (recombination_source a) (accumulated_v w) = Inr temp" and
    u: "cmatrix_multiply temp
       (inverse_singular_matrix (singular_values (final_q w) (rows w)) (rows w)) = Inr u" and
    d: "rows u = max (rows a) (cols a)" "cols u = min (rows a) (cols a)" and
    j: "jacobi_svd a = Inr (u, accumulated_v w, singular_values (final_q w) (rows w))"
    by (elim exE conjE)
  have rw': "rows w = rows a" using rw wide by simp
  have "cmatrix_multiply (cmatrix_transpose a) (accumulated_v w) = Inr temp"
    using t src by simp
  moreover have "cmatrix_multiply temp
       (inverse_singular_matrix (singular_values (final_q w) (rows w)) (rows a)) = Inr u"
    using u rw' by simp
  moreover have "rows u = cols a" "cols u = rows a" using d wide by simp_all
  ultimately show ?thesis using j by blast
qed

text \<open>
  For the \<open>1 \<times> 2\<close> input \<open>[[1, 0]]\<close> the returned \<open>U\<close> is the column \<open>[1, 0]\<^sup>T\<close>:
  two rows, not \<open>m = 1\<close>.
\<close>

theorem jacobi_svd_wide_rows_counterexample:
  "rows wide_matrix < cols wide_matrix \<and>
   jacobi_svd wide_matrix =
     Inr (\<lparr>rows = 2, cols = 1, mdata = [1, 0]\<rparr>, \<lparr>rows = 1, cols = 1, mdata = [1]\<rparr>,
          \<lparr>vsize = 1, vdata = [1], is_col = 0\<rparr>) \<and>
   rows \<lparr>rows = 2, cols = 1, mdata = [1, 0::real]\<rparr> \<noteq> rows wide_matrix"
  by (simp add: svd_wide) (simp add: wide_matrix_def)

theorem jacobi_svd_wide_shape_witness:
  "rows wide_matrix < cols wide_matrix \<and>
   (\<exists>u v s temp.
       jacobi_svd wide_matrix = Inr (u, v, s) \<and>
       cmatrix_multiply (cmatrix_transpose wide_matrix) v = Inr temp \<and>
       cmatrix_multiply temp (inverse_singular_matrix s 1) = Inr u \<and>
       rows u = 2 \<and> cols u = 1)"
proof -
  have wide: "rows wide_matrix < cols wide_matrix" by (simp add: wide_matrix_def)
  from jacobi_svd_wide_shape [OF wide] wide show ?thesis
    by (simp add: wide_matrix_def)
qed

text \<open>
  Claim C5. The rotation applied to the pair \<open>(p, r)\<close> uses the cosine and sine of the
  angle computed from \<open>numerator = 2 Q[p][r]\<close> and \<open>denominator = Q[p][p] - Q[r][r]\<close>.
  That angle is \<open>\<pi>/4\<close> or \<open>-\<pi>/4\<close>, by the sign of the numerator, when
  \<open>|denominator| < 1e-10\<close>, and \<open>atan(numerator / denominator) / 2\<close> otherwise; in the
  branch that divides, the denominator is not zero.
\<close>

theorem rotation_angle_spec:
  "rotate_pair p r (q, v) =
     apply_jacobi_rotation q v p r
       (cos (rotation_angle (2 * MAT_AT q p r) (MAT_AT q p p - MAT_AT q r r)))
       (sin (rotation_angle (2 * MAT_AT q p r) (MAT_AT q p p - MAT_AT q r r))) \<and>
   (\<bar>denominator\<bar> < 1 / 10 ^ 10 \<and> 0 \<le> numerator \<longrightarrow>
      rotation_angle numerator denominator = pi / 4) \<and>
   (\<bar>denominator\<bar> < 1 / 10 ^ 10 \<and> numerator < 0 \<longrightarrow>
      rotation_angle numerator denominator = - (pi / 4)) \<and>
   (1 / 10 ^ 10 \<le> \<bar>denominator\<bar> \<longrightarrow>
      rotation_angle numerator denominator = arctan (numerator / denominator) / 2 \<and>
      denominator \<noteq> 0)"
  by (auto simp: rotate_pair_def rotation_angle_def CLASSIFIER_EPSILON_def Let_def)

theorem rotation_angle_spec_witness:
  "\<bar>0::real\<bar> < 1 / 10 ^ 10 \<and> (0::real) \<le> 2 \<and> rotation_angle 2 0 = pi / 4 \<and>
   (-2::real) < 0 \<and> rotation_angle (-2) 0 = - (pi / 4) \<and>
   1 / 10 ^ 10 \<le> \<bar>2::real\<bar> \<and> rotation_angle 2 2 = arctan 1 / 2"
  using rotation_angle_spec [of 0 1 identity2 identity2 0 2]
    rotation_angle_spec [of 0 1 identity2 identity2 0 "-2"]
    rotation_angle_spec [of 0 1 identity2 identity2 2 2]
  by simp

text \<open>
  Claim C6. \<^verbatim>\<open>jacobi_svd\<close> returns for every input; with \<open>w\<close> the work matrix and
  \<open>Q\<close> the matrix the iteration ends with, the vector of singular values has one entry
  per row of \<open>w\<close>, entry \<open>i\<close> is \<open>sqrt(Q[i][i])\<close> when \<open>Q[i][i] > 0\<close> and \<open>0\<close>
  otherwise, and it is never negative. The square root is only taken in the positive
  branch.
\<close>

theorem singular_values_clamped:
  "\<exists>w u v s.
     work_matrix a = Inr w \<and> jacobi_svd a = Inr (u, v, s) \<and>
     vsize s = rows w \<and> length (vdata s) = rows w \<and>
     (\<forall>i < rows w.
        vdata s ! i = (if 0 < MAT_AT (final_q w) i i then sqrt (MAT_AT (final_q w) i i) else 0) \<and>
        0 \<le> vdata s ! i)"
proof -
  from jacobi_svd_result [of a] obtain w temp u where
    w: "work_matrix a = Inr w" and
    j: "jacobi_svd a = Inr (u, accumulated_v w, singular_values (final_q w) (rows w))"
    by (elim exE conjE)
  let ?s = "singular_values (final_q w) (rows w)"
  have "\<forall>i < rows w.
        vdata ?s ! i = (if 0 < MAT_AT (final_q w) i i then sqrt (MAT_AT (final_q w) i i) else 0) \<and>
        0 \<le> vdata ?s ! i"
    by (simp add: vdata_singular_values)
  moreover have "vsize ?s = rows w" "length (vdata ?s) = rows w"
    by (simp_all add: vdata_singular_values)
  ultimately show ?thesis using w j by blast
qed

theorem singular_values_clamped_witness:
  "work_matrix zero_matrix = Inr \<lparr>rows = 1, cols = 1, mdata = [0]\<rparr> \<and>
   jacobi_svd zero_matrix =
     Inr (\<lparr>rows = 1, cols = 1, mdata = [0]\<rparr>, \<lparr>rows = 1, cols = 1, mdata = [1]\<rparr>,
          \<lparr>vsize = 1, vdata = [0], is_col = 0\<rparr>) \<and>
   (0::nat) < rows \<lparr>rows = 1, cols = 1, mdata = [0::real]\<rparr> \<and>
   \<not> 0 < MAT_AT (final_q \<lparr>rows = 1, cols = 1, mdata = [0]\<rparr>) 0 0 \<and>
   vdata \<lparr>vsize = 1, vdata = [0::real], is_col = 0\<rparr> ! 0 = 0"
proof -
  from singular_values_clamped [of zero_matrix] obtain w u v s where
    w: "work_matrix zero_matrix = Inr w" and j: "jacobi_svd zero_matrix = Inr (u, v, s)" and
    a: "\<forall>i < rows w.
        vdata s ! i = (if 0 < MAT_AT (final_q w) i i then sqrt (MAT_AT (final_q w) i i) else 0) \<and>
        0 \<le> vdata s ! i"
    by (elim exE conjE)
  from w have w': "w = \<lparr>rows = 1, cols = 1, mdata = [0]\<rparr>" by (simp add: work_zero)
  from j have s': "s = \<lparr>vsize = 1, vdata = [0], is_col = 0\<rparr>" by (simp add: svd_zero)
  have q: "\<not> 0 < MAT_AT (final_q \<lparr>rows = 1, cols = 1, mdata = [0]\<rparr>) 0 0"
    by (simp add: final_q_1x1 MAT_AT_def)
  from a [rule_format, of 0] have "vdata s ! 0 = 0" using q by (simp add: w' s')
  then show ?thesis using q by (simp add: work_zero svd_zero s')
qed

section \<open>The incremental update, step by step\<close>

lemma memcpy_whole:
  "length dst = n \<Longrightarrow> memcpy dst 0 src 0 n = map (\<lambda>t. src ! t) [0..<n]"
  by (simp add: memcpy_def fold_fill)

lemma memcpy_same_length:
  "length dst = length src \<Longrightarrow> memcpy dst 0 src 0 (length src) = src"
  by (simp add: memcpy_whole map_nth)

lemma length_memcpy [simp]: "length (memcpy dst doff src soff n) = length dst"
  by (simp add: memcpy_def)

lemma in_span_copy:
  assumes "wf_matrix u" "wf_vector s"
  shows "in_span u s = (u, s\<lparr>is_col := 0\<rparr>)"
proof -
  have u: "memcpy (replicate (rows u * cols u) 0) 0 (mdata u) 0 (rows u * cols u) = mdata u"
    using assms(1) memcpy_same_length [of "replicate (rows u * cols u) 0" "mdata u"]
    by (simp add: wf_matrix_def)
  have s: "memcpy (replicate (vsize s) 0) 0 (vdata s) 0 (vsize s) = vdata s"
    using assms(2) memcpy_same_length [of "replicate (vsize s) 0" "vdata s"]
    by (simp add: wf_vector_def)
  show ?thesis
    by (simp add: in_span_def cmatrix_alloc_def cvector_alloc_def Let_def u s)
qed

lemma vsize_project_onto [simp]: "vsize (project_onto oob u c) = cols u"
  by (simp add: project_onto_def cvector_alloc_def Let_def)

lemma vdata_project_onto:
  "vdata (project_onto oob u c) =
     map (\<lambda>j. \<Sum>i\<leftarrow>[0..<rows u]. MAT_AT u i j * unchecked_read oob c i) [0..<cols u]"
  by (simp add: project_onto_def cvector_alloc_def Let_def fold_fill fold_add_sum_list)

lemma subtract_ok:
  "vsize a = vsize b \<Longrightarrow>
     cvector_subtract a b =
       Inr \<lparr>vsize = vsize a, vdata = map (\<lambda>i. vdata a ! i - vdata b ! i) [0..<vsize a],
            is_col = 0\<rparr>"
  by (simp add: cvector_subtract_def cvector_alloc_def Let_def fold_fill)

lemma subtract_error: "vsize a \<noteq> vsize b \<Longrightarrow> cvector_subtract a b = Inl ArgError"
  by (simp add: cvector_subtract_def)

lemma incremental_update_size_error:
  assumes "vsize c \<noteq> rows u"
  shows "incremental_update oob u s c max_rank epsilon = Inl ArgError"
proof -
  have "cols u = vsize (project_onto oob u c)" by simp
  from multiply_vector_ok [OF this]
  obtain utm where m: "cmatrix_multiply_vector u (project_onto oob u c) = Inr utm"
    and sz: "vsize utm = rows u"
    by simp
  have "cvector_subtract c utm = Inl ArgError"
    using assms sz by (simp add: subtract_error)
  then show ?thesis by (simp add: incremental_update_def Let_def m)
qed

lemma residual_steps:
  assumes "vsize c = rows u"
  shows "\<exists>u_times_m.
     cmatrix_multiply_vector u (project_onto oob u c) = Inr u_times_m \<and>
     cvector_subtract c u_times_m = Inr (residual oob u c)"
proof -
  let ?utm = "\<lparr>vsize = rows u,
      vdata = map (\<lambda>i. fold (\<lambda>j sum. sum + MAT_AT u i j * vdata (project_onto oob u c) ! j)
                       [0..<cols u] 0) [0..<rows u],
      is_col = 0\<rparr>"
  have "cols u = vsize (project_onto oob u c)" by simp
  from multiply_vector_ok [OF this]
  have m: "cmatrix_multiply_vector u (project_onto oob u c) = Inr ?utm" .
  have "map (\<lambda>i. vdata c ! i - vdata ?utm ! i) [0..<vsize c]
      = map (\<lambda>i. vdata c ! i -
                 (\<Sum>j\<leftarrow>[0..<cols u]. MAT_AT u i j * vdata (project_onto oob u c) ! j))
               [0..<vsize c]"
    by (rule map_cong [OF refl]) (simp add: assms fold_add_sum_list)
  then have p: "cvector_subtract c ?utm = Inr (residual oob u c)"
    using assms by (simp add: subtract_ok residual_def)
  from m p show ?thesis by (intro exI [of _ ?utm] conjI)
qed

lemma incremental_update_residual:
  assumes "vsize c = rows u"
  shows "incremental_update oob u s c max_rank epsilon =
     (if cvector_magnitude (residual oob u c) > epsilon
      then new_direction oob u s (project_onto oob u c) (residual oob u c)
             (cvector_magnitude (residual oob u c)) max_rank
      else Inr (in_span u s))"
proof -
  from residual_steps [OF assms, of oob] obtain u_times_m where
    m: "cmatrix_multiply_vector u (project_onto oob u c) = Inr u_times_m" and
    p: "cvector_subtract c u_times_m = Inr (residual oob u c)"
    by (elim exE conjE)
  show ?thesis
    unfolding incremental_update_def Let_def m sum.case p by simp
qed

lemma sum_list_cong_upt:
  "(\<And>i. i < n \<Longrightarrow> f i = g i) \<Longrightarrow>
     (\<Sum>i\<leftarrow>[0..<n]. f i) = (\<Sum>i\<leftarrow>[0..<n]. (g i :: real))"
  by (rule arg_cong [where f = sum_list], rule map_cong) simp_all

lemma magnitude_residual:
  assumes "vsize c = rows u"
  shows "cvector_magnitude (residual oob u c) = residual_norm u c"
proof -
  have proj: "\<And>j. j < cols u \<Longrightarrow>
      vdata (project_onto oob u c) ! j = (\<Sum>l\<leftarrow>[0..<rows u]. MAT_AT u l j * vdata c ! l)"
  proof -
    fix j assume j: "j < cols u"
    have "(\<Sum>l\<leftarrow>[0..<rows u]. MAT_AT u l j * unchecked_read oob c l)
        = (\<Sum>l\<leftarrow>[0..<rows u]. MAT_AT u l j * vdata c ! l)"
      by (rule sum_list_cong_upt) (simp add: unchecked_read_def assms)
    then show "vdata (project_onto oob u c) ! j = (\<Sum>l\<leftarrow>[0..<rows u]. MAT_AT u l j * vdata c ! l)"
      using j by (simp add: vdata_project_onto)
  qed
  have entry: "\<And>i. i < rows u \<Longrightarrow>
      vdata (residual oob u c) ! i =
        vdata c ! i -
           (\<Sum>j\<leftarrow>[0..<cols u]. MAT_AT u i j * (\<Sum>l\<leftarrow>[0..<rows u]. MAT_AT u l j * vdata c ! l))"
  proof -
    fix i assume i: "i < rows u"
    have "(\<Sum>j\<leftarrow>[0..<cols u]. MAT_AT u i j * vdata (project_onto oob u c) ! j)
        = (\<Sum>j\<leftarrow>[0..<cols u]. MAT_AT u i j * (\<Sum>l\<leftarrow>[0..<rows u]. MAT_AT u l j * vdata c ! l))"
      by (rule sum_list_cong_upt) (simp add: proj)
    then show "vdata (residual oob u c) ! i =
        vdata c ! i -
           (\<Sum>j\<leftarrow>[0..<cols u]. MAT_AT u i j * (\<Sum>l\<leftarrow>[0..<rows u]. MAT_AT u l j * vdata c ! l))"
      using i assms by (simp add: residual_def)
  qed
  have "(\<Sum>i\<leftarrow>[0..<rows u]. vdata (residual oob u c) ! i * vdata (residual oob u c) ! i)
      = (\<Sum>i\<leftarrow>[0..<rows u].
        (vdata c ! i -
           (\<Sum>j\<leftarrow>[0..<cols u]. MAT_AT u i j * (\<Sum>l\<leftarrow>[0..<rows u]. MAT_AT u l j * vdata c ! l)))\<^sup>2)"
    by (rule sum_list_cong_upt) (simp add: entry power2_eq_square)
  moreover have "vsize (residual oob u c) = rows u" using assms by (simp add: residual_def)
  ultimately show ?thesis
    by (simp add: magnitude_sum_list residual_norm_def)
qed


lemma shape_build_k [simp]:
  "rows (build_k_matrix_with_growth oob s m_vec p_norm) = vsize s + 1"
  "cols (build_k_matrix_with_growth oob s m_vec p_norm) = vsize s + 1"
  by (simp_all add: build_k_matrix_with_growth_def cmatrix_alloc_def Let_def)

lemma extend_column_ok:
  "rows m = vsize col \<Longrightarrow>
     \<exists>r. cmatrix_extend_column m col = Inr r \<and> rows r = rows m \<and> cols r = cols m + 1"
  by (simp add: cmatrix_extend_column_def cmatrix_alloc_def Let_def)

lemma shape_truncate_rank [simp]:
  "rows (fst (truncate_rank u_new s_prime max_rank)) = rows u_new"
  "cols (fst (truncate_rank u_new s_prime max_rank)) = size_t_of_int max_rank"
  "vsize (snd (truncate_rank u_new s_prime max_rank)) = size_t_of_int max_rank"
  by (simp_all add: truncate_rank_def cmatrix_alloc_def cvector_alloc_def Let_def)

lemma jacobi_svd_square:
  assumes "rows a = n" "cols a = n"
  shows "\<exists>u v s. jacobi_svd a = Inr (u, v, s) \<and> rows u = n \<and> cols u = n \<and> vsize s = n"
proof -
  from jacobi_svd_result [of a] obtain w temp u where
    rw: "rows w = min (rows a) (cols a)" and
    d: "rows u = max (rows a) (cols a)" "cols u = min (rows a) (cols a)" and
    j: "jacobi_svd a = Inr (u, accumulated_v w, singular_values (final_q w) (rows w))"
    by (elim exE conjE)
  have "rows u = n" "cols u = n" "vsize (singular_values (final_q w) (rows w)) = n"
    using d rw assms by simp_all
  with j show ?thesis by blast
qed

lemma new_direction_steps:
  "\<exists>u_prime s_prime u_extended.
     rows u_prime = vsize s + 1 \<and> cols u_prime = vsize s + 1 \<and> vsize s_prime = vsize s + 1 \<and>
     rows u_extended = rows u \<and> cols u_extended = cols u + 1 \<and>
     new_direction oob u s m_vec p p_norm max_rank =
       (case cmatrix_multiply u_extended u_prime of
          Inl e \<Rightarrow> Inl e
        | Inr u_new \<Rightarrow>
            if vsize s_prime > size_t_of_int max_rank
            then Inr (truncate_rank u_new s_prime max_rank)
            else Inr (u_new, s_prime))"
proof -
  let ?k = "build_k_matrix_with_growth oob s m_vec p_norm"
  let ?p_hat = "(cvector_alloc (rows u))\<lparr>vdata :=
            fold (\<lambda>i d. d[i := vdata p ! i * (1 / p_norm)]) [0..<rows u]
              (vdata (cvector_alloc (rows u)))\<rparr>"
  from jacobi_svd_square [of ?k "vsize s + 1"] obtain u_prime v_prime s_prime where
    j: "jacobi_svd ?k = Inr (u_prime, v_prime, s_prime)" and
    d: "rows u_prime = vsize s + 1" "cols u_prime = vsize s + 1" "vsize s_prime = vsize s + 1"
    by auto
  have "rows u = vsize ?p_hat" by (simp add: cvector_alloc_def)
  from extend_column_ok [OF this] obtain u_extended where
    e: "cmatrix_extend_column u ?p_hat = Inr u_extended" and
    ed: "rows u_extended = rows u" "cols u_extended = cols u + 1"
    by (elim exE conjE)
  have "new_direction oob u s m_vec p p_norm max_rank =
       (case cmatrix_multiply u_extended u_prime of
          Inl e \<Rightarrow> Inl e
        | Inr u_new \<Rightarrow>
            if vsize s_prime > size_t_of_int max_rank
            then Inr (truncate_rank u_new s_prime max_rank)
            else Inr (u_new, s_prime))"
    unfolding new_direction_def Let_def j sum.case prod.case e by simp
  with d ed show ?thesis by blast
qed

lemma new_direction_error:
  assumes "vsize s \<noteq> cols u"
  shows "new_direction oob u s m_vec p p_norm max_rank = Inl ArgError"
proof -
  from new_direction_steps [of s u oob m_vec p p_norm max_rank]
  obtain u_prime s_prime u_extended where
    d: "rows u_prime = vsize s + 1" "cols u_extended = cols u + 1" and
    n: "new_direction oob u s m_vec p p_norm max_rank =
       (case cmatrix_multiply u_extended u_prime of
          Inl e \<Rightarrow> Inl e
        | Inr u_new \<Rightarrow>
            if vsize s_prime > size_t_of_int max_rank
            then Inr (truncate_rank u_new s_prime max_rank)
            else Inr (u_new, s_prime))"
    by (elim exE conjE)
  have "cols u_extended \<noteq> rows u_prime" using d assms by simp
  then show ?thesis by (simp add: n multiply_error)
qed

lemma new_direction_ok:
  assumes "vsize s = cols u"
  shows "\<exists>u' s'. new_direction oob u s m_vec p p_norm max_rank = Inr (u', s') \<and>
     rows u' = rows u \<and>
     cols u' = (if cols u + 1 > size_t_of_int max_rank then size_t_of_int max_rank
                else cols u + 1) \<and>
     vsize s' = (if cols u + 1 > size_t_of_int max_rank then size_t_of_int max_rank
                 else cols u + 1)"
proof -
  from new_direction_steps [of s u oob m_vec p p_norm max_rank]
  obtain u_prime s_prime u_extended where
    d: "rows u_prime = vsize s + 1" "cols u_prime = vsize s + 1" "vsize s_prime = vsize s + 1"
       "rows u_extended = rows u" "cols u_extended = cols u + 1" and
    n: "new_direction oob u s m_vec p p_norm max_rank =
       (case cmatrix_multiply u_extended u_prime of
          Inl e \<Rightarrow> Inl e
        | Inr u_new \<Rightarrow>
            if vsize s_prime > size_t_of_int max_rank
            then Inr (truncate_rank u_new s_prime max_rank)
            else Inr (u_new, s_prime))"
    by (elim exE conjE)
  have "cols u_extended = rows u_prime" using d assms by simp
  from multiply_ok [OF this] obtain u_new where
    m: "cmatrix_multiply u_extended u_prime = Inr u_new" and
    md: "rows u_new = rows u_extended" "cols u_new = cols u_prime"
    by (elim exE conjE)
  show ?thesis
  proof (cases "vsize s_prime > size_t_of_int max_rank")
    case True
    then have "new_direction oob u s m_vec p p_norm max_rank
        = Inr (fst (truncate_rank u_new s_prime max_rank), snd (truncate_rank u_new s_prime max_rank))"
      by (simp add: n m)
    moreover have "cols u + 1 > size_t_of_int max_rank" using True d assms by simp
    ultimately show ?thesis
      using md d
      by (intro exI [of _ "fst (truncate_rank u_new s_prime max_rank)"]
            exI [of _ "snd (truncate_rank u_new s_prime max_rank)"]) simp
  next
    case False
    then have "new_direction oob u s m_vec p p_norm max_rank = Inr (u_new, s_prime)"
      by (simp add: n m)
    moreover have "\<not> cols u + 1 > size_t_of_int max_rank" using False d assms by simp
    ultimately show ?thesis
      using md d assms by (intro exI [of _ u_new] exI [of _ s_prime]) simp
  qed
qed

section \<open>The incremental update (claims C1, C3, C4 and C9)\<close>

lemma incremental_update_in_span_eq:
  assumes "vsize c = rows u" "residual_norm u c \<le> epsilon"
  shows "incremental_update oob u s c max_rank epsilon = Inr (in_span u s)"
  using assms by (simp add: incremental_update_residual magnitude_residual)

lemma incremental_update_new_direction_error:
  assumes "vsize c = rows u" "epsilon < residual_norm u c" "vsize s \<noteq> cols u"
  shows "incremental_update oob u s c max_rank epsilon = Inl ArgError"
  using assms by (simp add: incremental_update_residual magnitude_residual new_direction_error)

lemma incremental_update_new_direction_ok:
  assumes "vsize c = rows u" "epsilon < residual_norm u c" "vsize s = cols u"
  shows "\<exists>u' s'. incremental_update oob u s c max_rank epsilon = Inr (u', s') \<and>
     rows u' = rows u \<and>
     cols u' = (if cols u + 1 > size_t_of_int max_rank then size_t_of_int max_rank
                else cols u + 1) \<and>
     vsize s' = (if cols u + 1 > size_t_of_int max_rank then size_t_of_int max_rank
                 else cols u + 1)"
proof -
  have "incremental_update oob u s c max_rank epsilon =
      new_direction oob u s (project_onto oob u c) (residual oob u c)
        (cvector_magnitude (residual oob u c)) max_rank"
    using assms(1,2) by (simp add: incremental_update_residual magnitude_residual)
  with new_direction_ok [OF assms(3)] show ?thesis by simp
qed

lemma residual_norm_orthogonal: "residual_norm column_u (vec [0, 1, 0]) = 1"
  by (simp add: residual_norm_def column_u_def vec_def MAT_AT_def upt_conv_Cons
      numeral_3_eq_3)

lemma residual_norm_aligned: "residual_norm column_u (vec [1, 0, 0]) = 0"
  by (simp add: residual_norm_def column_u_def vec_def MAT_AT_def upt_conv_Cons
      numeral_3_eq_3)

lemma size_t_of_int_negative:
  "sint x < 0 \<Longrightarrow> size_t_of_int x = nat (2 ^ 64 + sint x) \<and> 2 ^ 64 - 2 ^ 31 \<le> size_t_of_int x"
proof -
  assume a: "sint x < 0"
  have lo: "- (2 ^ 31) \<le> sint x" using sint_ge [of x] by simp
  have "sint x mod 2 ^ 64 = (sint x + 2 ^ 64) mod 2 ^ 64" by simp
  also have "\<dots> = sint x + 2 ^ 64" using a lo by (intro mod_pos_pos_trivial) simp_all
  finally have m: "sint x mod 2 ^ 64 = 2 ^ 64 + sint x" by simp
  have "(2 ^ 64 - 2 ^ 31 :: int) \<le> 2 ^ 64 + sint x" using lo by simp
  then have "nat (2 ^ 64 - 2 ^ 31) \<le> nat (2 ^ 64 + sint x)" by simp
  moreover have "nat (2 ^ 64 - 2 ^ 31 :: int) = 2 ^ 64 - 2 ^ 31" by simp
  ultimately show ?thesis unfolding size_t_of_int_def m by simp
qed

lemma size_t_5: "size_t_of_int 5 = 5" and size_t_1: "size_t_of_int 1 = 1"
  and size_t_0: "size_t_of_int 0 = 0"
  by (simp_all add: size_t_of_int_def)


text \<open>
  Claim C1, as the code has it. \<^verbatim>\<open>incremental_update\<close> validates nothing itself; an
  argument error comes from \<^verbatim>\<open>cvector_subtract\<close> when \<open>c.size \<noteq> U.rows\<close>, and from
  \<^verbatim>\<open>cmatrix_multiply\<close> when a new direction is found (\<open>p_norm > epsilon\<close>) and
  \<open>S.size \<noteq> U.cols\<close>. In every other case a pair is returned: in particular for every
  \<open>max_rank\<close>, also below 1, and for a wrong \<open>S.size\<close> when the vector is in the span.
  Nothing depends on what the unchecked reads find behind a short buffer.
\<close>

theorem incremental_update_failure:
  "(vsize c \<noteq> rows u \<or> (epsilon < residual_norm u c \<and> vsize s \<noteq> cols u) \<longrightarrow>
      incremental_update oob u s c max_rank epsilon = Inl ArgError) \<and>
   (vsize c = rows u \<and> (residual_norm u c \<le> epsilon \<or> vsize s = cols u) \<longrightarrow>
      (\<exists>u' s'. incremental_update oob u s c max_rank epsilon = Inr (u', s')))"
proof (intro conjI impI)
  assume "vsize c \<noteq> rows u \<or> (epsilon < residual_norm u c \<and> vsize s \<noteq> cols u)"
  then show "incremental_update oob u s c max_rank epsilon = Inl ArgError"
  proof
    assume "vsize c \<noteq> rows u"
    then show ?thesis by (rule incremental_update_size_error)
  next
    assume a: "epsilon < residual_norm u c \<and> vsize s \<noteq> cols u"
    show ?thesis
    proof (cases "vsize c = rows u")
      case True
      then show ?thesis using a by (simp add: incremental_update_new_direction_error)
    next
      case False
      then show ?thesis by (rule incremental_update_size_error)
    qed
  qed
next
  assume a: "vsize c = rows u \<and> (residual_norm u c \<le> epsilon \<or> vsize s = cols u)"
  show "\<exists>u' s'. incremental_update oob u s c max_rank epsilon = Inr (u', s')"
  proof (cases "residual_norm u c \<le> epsilon")
    case True
    then have "incremental_update oob u s c max_rank epsilon = Inr (fst (in_span u s), snd (in_span u s))"
      using a by (simp add: incremental_update_in_span_eq)
    then show ?thesis by blast
  next
    case False
    then have "epsilon < residual_norm u c" "vsize s = cols u" using a by auto
    from incremental_update_new_direction_ok [OF conjunct1 [OF a] this]
    show ?thesis by blast
  qed
qed

text \<open>
  With \<open>U = [1, 0, 0]\<^sup>T\<close> and \<open>c = [1, 0, 0]\<close> (zero residual) the call returns copies of
  \<open>U\<close> and \<open>S\<close> for \<open>max_rank = 0\<close>, and also for an \<open>S\<close> of two entries against the
  single column of \<open>U\<close>; the claim as worded demands an error in both calls.
\<close>

theorem incremental_update_failure_counterexample:
  "vsize (vec [1, 0, 0]) = rows column_u \<and> vsize (vec [1]) = cols column_u \<and>
   sint (0 :: 32 word) < 1 \<and>
   incremental_update no_garbage column_u (vec [1]) (vec [1, 0, 0]) 0 (1 / 10 ^ 6)
     = Inr (column_u, vec [1]) \<and>
   vsize (vec [1, 2]) \<noteq> cols column_u \<and>
   incremental_update no_garbage column_u (vec [1, 2]) (vec [1, 0, 0]) 5 (1 / 10 ^ 6)
     = Inr (column_u, vec [1, 2])"
proof -
  have c: "vsize (vec [1, 0, 0]) = rows column_u" by (simp add: vec_def column_u_def)
  have r: "residual_norm column_u (vec [1, 0, 0]) \<le> 1 / 10 ^ 6"
    by (simp add: residual_norm_aligned)
  have wu: "wf_matrix column_u" by (simp add: wf_matrix_def column_u_def)
  have w1: "wf_vector (vec [1])" and w2: "wf_vector (vec [1, 2])"
    by (simp_all add: wf_vector_def vec_def)
  have "incremental_update no_garbage column_u (vec [1]) (vec [1, 0, 0]) 0 (1 / 10 ^ 6)
      = Inr (column_u, vec [1])"
    unfolding incremental_update_in_span_eq [OF c r] in_span_copy [OF wu w1]
    by (simp add: vec_def)
  moreover have "incremental_update no_garbage column_u (vec [1, 2]) (vec [1, 0, 0]) 5 (1 / 10 ^ 6)
      = Inr (column_u, vec [1, 2])"
    unfolding incremental_update_in_span_eq [OF c r] in_span_copy [OF wu w2]
    by (simp add: vec_def)
  ultimately show ?thesis by (simp add: vec_def column_u_def)
qed

theorem incremental_update_failure_witness:
  "vsize (vec [1, 0]) \<noteq> rows column_u \<and>
   incremental_update no_garbage column_u (vec [1]) (vec [1, 0]) 5 (1 / 10 ^ 6) = Inl ArgError \<and>
   vsize (vec [0, 1, 0]) = rows column_u \<and>
   1 / 10 ^ 6 < residual_norm column_u (vec [0, 1, 0]) \<and> vsize (vec [1, 2]) \<noteq> cols column_u \<and>
   incremental_update no_garbage column_u (vec [1, 2]) (vec [0, 1, 0]) 5 (1 / 10 ^ 6) = Inl ArgError \<and>
   vsize (vec [1]) = cols column_u \<and>
   (\<exists>u' s'. incremental_update no_garbage column_u (vec [1]) (vec [0, 1, 0]) 0 (1 / 10 ^ 6)
      = Inr (u', s')) \<and>
   residual_norm column_u (vec [1, 0, 0]) \<le> 1 / 10 ^ 6 \<and>
   (\<exists>u' s'. incremental_update no_garbage column_u (vec [1, 2]) (vec [1, 0, 0]) (- 1) (1 / 10 ^ 6)
      = Inr (u', s'))"
proof -
  have a: "vsize (vec [1, 0]) \<noteq> rows column_u" by (simp add: vec_def column_u_def)
  have b: "vsize (vec [0, 1, 0]) = rows column_u" "vsize (vec [1, 0, 0]) = rows column_u"
    by (simp_all add: vec_def column_u_def)
  have c: "1 / 10 ^ 6 < residual_norm column_u (vec [0, 1, 0])"
    by (simp add: residual_norm_orthogonal)
  have d: "vsize (vec [1, 2]) \<noteq> cols column_u" "vsize (vec [1]) = cols column_u"
    by (simp_all add: vec_def column_u_def)
  have e: "residual_norm column_u (vec [1, 0, 0]) \<le> 1 / 10 ^ 6"
    by (simp add: residual_norm_aligned)
  note t1 = incremental_update_failure
    [of "vec [1, 0]" column_u "1 / 10 ^ 6" "vec [1]" no_garbage 5, THEN conjunct1, THEN mp]
  note t2 = incremental_update_failure
    [of "vec [0, 1, 0]" column_u "1 / 10 ^ 6" "vec [1, 2]" no_garbage 5, THEN conjunct1, THEN mp]
  note t3 = incremental_update_failure
    [of "vec [0, 1, 0]" column_u "1 / 10 ^ 6" "vec [1]" no_garbage 0, THEN conjunct2, THEN mp]
  note t4 = incremental_update_failure
    [of "vec [1, 0, 0]" column_u "1 / 10 ^ 6" "vec [1, 2]" no_garbage "- 1", THEN conjunct2, THEN mp]
  have r1: "incremental_update no_garbage column_u (vec [1]) (vec [1, 0]) 5 (1 / 10 ^ 6) = Inl ArgError"
    using t1 a by blast
  have r2: "incremental_update no_garbage column_u (vec [1, 2]) (vec [0, 1, 0]) 5 (1 / 10 ^ 6) = Inl ArgError"
    using t2 c d(1) by blast
  have r3: "\<exists>u' s'. incremental_update no_garbage column_u (vec [1]) (vec [0, 1, 0]) 0 (1 / 10 ^ 6)
      = Inr (u', s')"
    using t3 b(1) d(2) by blast
  have r4: "\<exists>u' s'. incremental_update no_garbage column_u (vec [1, 2]) (vec [1, 0, 0]) (- 1) (1 / 10 ^ 6)
      = Inr (u', s')"
    using t4 b(2) e by blast
  from a r1 b(1) c d(1) r2 d(2) r3 e r4 show ?thesis by (intro conjI)
qed


lemma residual_norm_zero:
  assumes "\<forall>i < rows u. vdata c ! i =
     (\<Sum>j\<leftarrow>[0..<cols u]. MAT_AT u i j * (\<Sum>l\<leftarrow>[0..<rows u]. MAT_AT u l j * vdata c ! l))"
  shows "residual_norm u c = 0"
proof -
  have "(\<Sum>i\<leftarrow>[0..<rows u].
        (vdata c ! i -
           (\<Sum>j\<leftarrow>[0..<cols u]. MAT_AT u i j * (\<Sum>l\<leftarrow>[0..<rows u]. MAT_AT u l j * vdata c ! l)))\<^sup>2)
      = (\<Sum>i\<leftarrow>[0..<rows u]. 0)"
    by (rule sum_list_cong_upt) (simp add: assms)
  then show ?thesis by (simp add: residual_norm_def)
qed

text \<open>
  Claim C3. For well-formed \<open>U\<close> and \<open>S\<close> and a vector of \<open>U.rows\<close> entries, the
  \<^verbatim>\<open>p_norm\<close> the code computes (the magnitude of \<open>c - U m_vec\<close>) is
  \<open>\<parallel>c - U (U\<^sup>T c)\<parallel>\<close>, and a residual norm of at most \<open>epsilon\<close> makes \<^verbatim>\<open>incremental_update\<close> return a matrix with the
  dimensions and entries of \<open>U\<close> and a vector with the size and entries of \<open>S\<close>. A vector
  equal to \<open>U (U\<^sup>T c)\<close> has residual norm \<open>0\<close>, so it is such a case for every
  \<open>epsilon \<ge> 0\<close>; the returned vector is a fresh row vector (\<^verbatim>\<open>cvector_alloc\<close> clears
  the orientation tag).
\<close>

theorem incremental_update_in_span:
  assumes "wf_matrix u" and "wf_vector s" and "vsize c = rows u" and "vsize s = cols u"
  shows "(\<exists>u_times_m p.
            cmatrix_multiply_vector u (project_onto oob u c) = Inr u_times_m \<and>
            cvector_subtract c u_times_m = Inr p \<and>
            cvector_magnitude p = residual_norm u c) \<and>
         (residual_norm u c \<le> epsilon \<longrightarrow>
            (\<exists>u' s'. incremental_update oob u s c max_rank epsilon = Inr (u', s') \<and>
               rows u' = rows u \<and> cols u' = cols u \<and> mdata u' = mdata u \<and>
               vsize s' = vsize s \<and> vdata s' = vdata s)) \<and>
         ((\<forall>i < rows u. vdata c ! i =
             (\<Sum>j\<leftarrow>[0..<cols u]. MAT_AT u i j * (\<Sum>l\<leftarrow>[0..<rows u]. MAT_AT u l j * vdata c ! l)))
            \<longrightarrow> residual_norm u c = 0 \<and>
                (0 \<le> epsilon \<longrightarrow>
                   incremental_update oob u s c max_rank epsilon = Inr (u, s\<lparr>is_col := 0\<rparr>)))"
proof -
  have copy: "residual_norm u c \<le> epsilon \<Longrightarrow>
      incremental_update oob u s c max_rank epsilon = Inr (u, s\<lparr>is_col := 0\<rparr>)"
    using assms(1,2,3) by (simp add: incremental_update_in_span_eq in_span_copy)
  have first: "residual_norm u c \<le> epsilon \<longrightarrow>
            (\<exists>u' s'. incremental_update oob u s c max_rank epsilon = Inr (u', s') \<and>
               rows u' = rows u \<and> cols u' = cols u \<and> mdata u' = mdata u \<and>
               vsize s' = vsize s \<and> vdata s' = vdata s)"
  proof
    assume "residual_norm u c \<le> epsilon"
    from copy [OF this] show "\<exists>u' s'. incremental_update oob u s c max_rank epsilon = Inr (u', s') \<and>
               rows u' = rows u \<and> cols u' = cols u \<and> mdata u' = mdata u \<and>
               vsize s' = vsize s \<and> vdata s' = vdata s"
      by simp
  qed
  have second: "(\<forall>i < rows u. vdata c ! i =
             (\<Sum>j\<leftarrow>[0..<cols u]. MAT_AT u i j * (\<Sum>l\<leftarrow>[0..<rows u]. MAT_AT u l j * vdata c ! l)))
            \<longrightarrow> residual_norm u c = 0 \<and>
                (0 \<le> epsilon \<longrightarrow>
                   incremental_update oob u s c max_rank epsilon = Inr (u, s\<lparr>is_col := 0\<rparr>))"
  proof
    assume "\<forall>i < rows u. vdata c ! i =
             (\<Sum>j\<leftarrow>[0..<cols u]. MAT_AT u i j * (\<Sum>l\<leftarrow>[0..<rows u]. MAT_AT u l j * vdata c ! l))"
    then have z: "residual_norm u c = 0" by (rule residual_norm_zero)
    then show "residual_norm u c = 0 \<and>
                (0 \<le> epsilon \<longrightarrow>
                   incremental_update oob u s c max_rank epsilon = Inr (u, s\<lparr>is_col := 0\<rparr>))"
      using copy by simp
  qed
  have norm: "\<exists>u_times_m p.
            cmatrix_multiply_vector u (project_onto oob u c) = Inr u_times_m \<and>
            cvector_subtract c u_times_m = Inr p \<and>
            cvector_magnitude p = residual_norm u c"
    using residual_steps [OF assms(3), of oob] magnitude_residual [OF assms(3), of oob]
    by blast
  from norm first second show ?thesis by (intro conjI)
qed

theorem incremental_update_in_span_witness:
  "wf_matrix column_u \<and> wf_vector (vec [1]) \<and> vsize (vec [1, 0, 0]) = rows column_u \<and>
   vsize (vec [1]) = cols column_u \<and>
   residual_norm column_u (vec [1, 0, 0]) = 0 \<and> (0::real) \<le> 1 / 10 ^ 6 \<and>
   residual_norm column_u (vec [1, 0, 0]) \<le> 1 / 10 ^ 6 \<and>
   incremental_update no_garbage column_u (vec [1]) (vec [1, 0, 0]) 5 (1 / 10 ^ 6)
     = Inr (column_u, vec [1])"
proof -
  have wu: "wf_matrix column_u" by (simp add: wf_matrix_def column_u_def)
  have ws: "wf_vector (vec [1])" by (simp add: wf_vector_def vec_def)
  have c: "vsize (vec [1, 0, 0]) = rows column_u" by (simp add: vec_def column_u_def)
  have k: "vsize (vec [1]) = cols column_u" by (simp add: vec_def column_u_def)
  have r: "residual_norm column_u (vec [1, 0, 0]) \<le> 1 / 10 ^ 6"
    by (simp add: residual_norm_aligned)
  have fix_point: "\<forall>i < rows column_u. vdata (vec [1, 0, 0]) ! i =
      (\<Sum>j\<leftarrow>[0..<cols column_u]. MAT_AT column_u i j *
          (\<Sum>l\<leftarrow>[0..<rows column_u]. MAT_AT column_u l j * vdata (vec [1, 0, 0]) ! l))"
    by (simp add: column_u_def vec_def MAT_AT_def upt_conv_Cons numeral_3_eq_3 less_Suc_eq)
  have e: "(0::real) \<le> 1 / 10 ^ 6" by simp
  note t = incremental_update_in_span
    [OF wu ws c k, where oob = no_garbage and epsilon = "1 / 10 ^ 6" and max_rank = 5]
  from t [THEN conjunct2, THEN conjunct2, THEN mp, OF fix_point, THEN conjunct1]
  have z: "residual_norm column_u (vec [1, 0, 0]) = 0" .
  from t [THEN conjunct2, THEN conjunct2, THEN mp, OF fix_point, THEN conjunct2, THEN mp, OF e]
  have "incremental_update no_garbage column_u (vec [1]) (vec [1, 0, 0]) 5 (1 / 10 ^ 6)
     = Inr (column_u, (vec [1])\<lparr>is_col := 0\<rparr>)" .
  then have "incremental_update no_garbage column_u (vec [1]) (vec [1, 0, 0]) 5 (1 / 10 ^ 6)
     = Inr (column_u, vec [1])"
    by (simp add: vec_def)
  with wu ws c k z e r show ?thesis by (intro conjI)
qed

text \<open>
  Claim C4. From \<open>U = [1, 0, 0]\<^sup>T\<close>, \<open>S = [1]\<close> and the orthogonal vector
  \<open>c = [0, 1, 0]\<close> with \<open>epsilon = 1e-6\<close>: for \<open>max_rank = 5\<close> the result has two columns,
  for \<open>max_rank = 1\<close> it has one column and one singular value.
\<close>

theorem rank_growth_and_cap:
  "(\<exists>u' s'. incremental_update oob column_u (vec [1]) (vec [0, 1, 0]) 5 (1 / 10 ^ 6)
       = Inr (u', s') \<and> cols u' = 2) \<and>
   (\<exists>u' s'. incremental_update oob column_u (vec [1]) (vec [0, 1, 0]) 1 (1 / 10 ^ 6)
       = Inr (u', s') \<and> cols u' = 1 \<and> vsize s' = 1)"
proof -
  have c: "vsize (vec [0, 1, 0]) = rows column_u" by (simp add: vec_def column_u_def)
  have k: "vsize (vec [1]) = cols column_u" by (simp add: vec_def column_u_def)
  have r: "1 / 10 ^ 6 < residual_norm column_u (vec [0, 1, 0])"
    by (simp add: residual_norm_orthogonal)
  from incremental_update_new_direction_ok [OF c r k, of oob 5]
  have grow: "\<exists>u' s'. incremental_update oob column_u (vec [1]) (vec [0, 1, 0]) 5 (1 / 10 ^ 6)
       = Inr (u', s') \<and> cols u' = 2"
    by (auto simp: size_t_5 column_u_def)
  from incremental_update_new_direction_ok [OF c r k, of oob 1]
  have cap: "\<exists>u' s'. incremental_update oob column_u (vec [1]) (vec [0, 1, 0]) 1 (1 / 10 ^ 6)
       = Inr (u', s') \<and> cols u' = 1 \<and> vsize s' = 1"
    by (auto simp: size_t_1 column_u_def)
  from grow cap show ?thesis by (rule conjI)
qed

theorem rank_growth_and_cap_witness:
  "(\<exists>u' s'. incremental_update no_garbage column_u (vec [1]) (vec [0, 1, 0]) 5 (1 / 10 ^ 6)
       = Inr (u', s') \<and> cols u' = 2) \<and>
   (\<exists>u' s'. incremental_update no_garbage column_u (vec [1]) (vec [0, 1, 0]) 1 (1 / 10 ^ 6)
       = Inr (u', s') \<and> cols u' = 1 \<and> vsize s' = 1)"
  by (rule rank_growth_and_cap [of no_garbage])

text \<open>
  Claim C9. A negative \<open>max_rank\<close> is compared as the \<^verbatim>\<open>size_t\<close> \<open>2\<^sup>6\<^sup>4 + max_rank\<close>,
  which is at least \<open>2\<^sup>6\<^sup>4 - 2\<^sup>3\<^sup>1\<close>; the new rank \<open>k + 1\<close> does not exceed it, no
  truncation happens, and an update that finds a new direction returns rank \<open>k + 1\<close>
  without an error. The bound on \<open>k + 1\<close> holds for every matrix that fits into a 64-bit
  address space, where the \<open>(k + 1) \<times> (k + 1)\<close> matrix \<open>K\<close> of 8-byte numbers must fit
  too.
\<close>

theorem negative_max_rank_no_truncation:
  assumes "sint max_rank < 0" and "vsize c = rows u" and "vsize s = cols u"
    and "epsilon < residual_norm u c" and "cols u + 1 \<le> 2 ^ 64 - 2 ^ 31"
  shows "int (size_t_of_int max_rank) = 2 ^ 64 + sint max_rank \<and>
         \<not> cols u + 1 > size_t_of_int max_rank \<and>
         (\<exists>u' s'. incremental_update oob u s c max_rank epsilon = Inr (u', s') \<and>
            rows u' = rows u \<and> cols u' = cols u + 1 \<and> vsize s' = cols u + 1)"
proof -
  from size_t_of_int_negative [OF assms(1)]
  have val: "size_t_of_int max_rank = nat (2 ^ 64 + sint max_rank)"
    and big: "2 ^ 64 - 2 ^ 31 \<le> size_t_of_int max_rank" by simp_all
  have "- (2 ^ 31) \<le> sint max_rank" using sint_ge [of max_rank] by simp
  then have conv: "int (size_t_of_int max_rank) = 2 ^ 64 + sint max_rank"
    unfolding val by simp
  from big assms(5) have guard: "\<not> cols u + 1 > size_t_of_int max_rank" by simp
  from incremental_update_new_direction_ok [OF assms(2,4,3), of oob max_rank] guard
  have "\<exists>u' s'. incremental_update oob u s c max_rank epsilon = Inr (u', s') \<and>
            rows u' = rows u \<and> cols u' = cols u + 1 \<and> vsize s' = cols u + 1"
    by simp
  with conv guard show ?thesis by (intro conjI)
qed

theorem negative_max_rank_no_truncation_witness:
  "sint (- 1 :: 32 word) < 0 \<and> vsize (vec [0, 1, 0]) = rows column_u \<and>
   vsize (vec [1]) = cols column_u \<and> 1 / 10 ^ 6 < residual_norm column_u (vec [0, 1, 0]) \<and>
   cols column_u + 1 \<le> 2 ^ 64 - 2 ^ 31 \<and>
   size_t_of_int (- 1) = 18446744073709551615 \<and>
   (\<exists>u' s'. incremental_update no_garbage column_u (vec [1]) (vec [0, 1, 0]) (- 1) (1 / 10 ^ 6)
       = Inr (u', s') \<and> rows u' = 3 \<and> cols u' = 2 \<and> vsize s' = 2)"
proof -
  have n: "sint (- 1 :: 32 word) < 0" by simp
  have c: "vsize (vec [0, 1, 0]) = rows column_u" by (simp add: vec_def column_u_def)
  have k: "vsize (vec [1]) = cols column_u" by (simp add: vec_def column_u_def)
  have r: "1 / 10 ^ 6 < residual_norm column_u (vec [0, 1, 0])"
    by (simp add: residual_norm_orthogonal)
  have b: "cols column_u + 1 \<le> 2 ^ 64 - 2 ^ 31" by (simp add: column_u_def)
  have z: "size_t_of_int (- 1) = 18446744073709551615" by (simp add: size_t_of_int_def)
  from negative_max_rank_no_truncation [OF n c k r b, of no_garbage]
  have "\<exists>u' s'. incremental_update no_garbage column_u (vec [1]) (vec [0, 1, 0]) (- 1) (1 / 10 ^ 6)
       = Inr (u', s') \<and> rows u' = 3 \<and> cols u' = 2 \<and> vsize s' = 2"
    by (simp add: column_u_def numeral_2_eq_2)
  with n c k r b z show ?thesis by (intro conjI)
qed

end
